theory Spec2Isabelle
  imports Complex_Main "HOL-Library.Word"
begin

unbundle bit_operations_syntax

text \<open>
  A shallow embedding of the polling engine of \<^verbatim>\<open>lead-detector.js\<close> (class
  \<^verbatim>\<open>LeadDetector\<close>): the change detection on parsed arrays and on raw text, the
  notification deduplication, the webhook delivery, the backoff delay and one cycle of
  \<^verbatim>\<open>pollLeadsData\<close>. Methods take the configuration \<^verbatim>\<open>this.config\<close> and the fields of
  \<^verbatim>\<open>this\<close> they use as explicit arguments and return the updated fields. What a cycle
  receives from outside (the HTTP responses, the clock, \<^verbatim>\<open>Math.random()\<close>) is an
  argument as well.
\<close>

section \<open>JavaScript values\<close>

text \<open>
  The values \<^verbatim>\<open>JSON.parse\<close> produces, and \<^verbatim>\<open>undefined\<close> for a missing property. A number
  is an IEEE-754 double, carried by its 64-bit pattern: only its truthiness and \<^verbatim>\<open>===\<close>
  are needed. A string is a list of characters; the code inspects ASCII characters only.
  An object carries its own enumerable properties in the order \<^verbatim>\<open>Object.keys\<close> reports
  them, each key once. No value is a function, so an own property that shadows a method
  of \<^verbatim>\<open>Object.prototype\<close> makes a call of that method raise a TypeError.
\<close>

datatype error = TypeError | HttpError nat | TransportError

datatype jsval =
    JUndefined
  | JNull
  | JBool bool
  | JNum "64 word"
  | JStr string
  | JArr "jsval list"
  | JObj "(string \<times> jsval) list"

definition is_NaN :: "64 word \<Rightarrow> bool" where
  "is_NaN w = (0x7FF0000000000000 < (w AND 0x7FFFFFFFFFFFFFFF))"

definition is_zero :: "64 word \<Rightarrow> bool" where
  "is_zero w = ((w AND 0x7FFFFFFFFFFFFFFF) = 0)"

text \<open>\<^verbatim>\<open>ToBoolean\<close>: what \<^verbatim>\<open>if (v)\<close>, \<^verbatim>\<open>!v\<close>, \<^verbatim>\<open>a && b\<close> and \<^verbatim>\<open>a || b\<close> test.\<close>

fun truthy :: "jsval \<Rightarrow> bool" where
  "truthy JUndefined = False"
| "truthy JNull = False"
| "truthy (JBool b) = b"
| "truthy (JNum w) = (\<not> is_zero w \<and> \<not> is_NaN w)"
| "truthy (JStr s) = (s \<noteq> [])"
| "truthy (JArr xs) = True"
| "truthy (JObj ps) = True"

text \<open>
  \<^verbatim>\<open>a === b\<close>. Objects and arrays are equal only to themselves by reference; the two
  sides the detector compares come from two different calls of \<^verbatim>\<open>JSON.parse\<close>, so on
  objects and arrays the comparison is false.
\<close>

fun strict_eq :: "jsval \<Rightarrow> jsval \<Rightarrow> bool" where
  "strict_eq JUndefined JUndefined = True"
| "strict_eq JNull JNull = True"
| "strict_eq (JBool a) (JBool b) = (a = b)"
| "strict_eq (JNum a) (JNum b) =
     (\<not> is_NaN a \<and> \<not> is_NaN b \<and> (a = b \<or> (is_zero a \<and> is_zero b)))"
| "strict_eq (JStr a) (JStr b) = (a = b)"
| "strict_eq _ _ = False"

text \<open>\<^verbatim>\<open>typeof v === 'object'\<close> holds of objects, arrays and \<^verbatim>\<open>null\<close>.\<close>

fun typeof_object :: "jsval \<Rightarrow> bool" where
  "typeof_object JNull = True"
| "typeof_object (JArr xs) = True"
| "typeof_object (JObj ps) = True"
| "typeof_object _ = False"

fun isArray :: "jsval \<Rightarrow> bool" where
  "isArray (JArr xs) = True"
| "isArray _ = False"

fun elements :: "jsval \<Rightarrow> jsval list" where
  "elements (JArr xs) = xs"
| "elements _ = []"

text \<open>The decimal numeral of an array index, as property keys spell it.\<close>

function show_nat :: "nat \<Rightarrow> string" where
  "show_nat n =
     (if n < 10 then [''0123456789'' ! n]
      else show_nat (n div 10) @ [''0123456789'' ! (n mod 10)])"
  by pat_completeness auto
termination
  by (relation "measure (\<lambda>n. n)") auto

text \<open>
  The own enumerable properties of a value, as the spread \<^verbatim>\<open>{ ...item }\<close>,
  \<^verbatim>\<open>Object.keys\<close> and \<^verbatim>\<open>Object.values\<close> see them: the properties of an object, the
  indexed elements of an array, the indexed characters of a string, nothing for a number
  or a boolean.
\<close>

fun own_props :: "jsval \<Rightarrow> (string \<times> jsval) list" where
  "own_props (JObj ps) = ps"
| "own_props (JArr xs) = zip (map show_nat [0..<length xs]) xs"
| "own_props (JStr s) = zip (map show_nat [0..<length s]) (map (\<lambda>c. JStr [c]) s)"
| "own_props _ = []"

definition Object_keys :: "jsval \<Rightarrow> string list" where
  "Object_keys v = map fst (own_props v)"

definition Object_values :: "jsval \<Rightarrow> jsval list" where
  "Object_values v = map snd (own_props v)"

fun has_length :: "jsval \<Rightarrow> bool" where
  "has_length (JArr xs) = True"
| "has_length (JStr s) = True"
| "has_length _ = False"

text \<open>
  Evaluation in order: the first exception ends it, otherwise all results are there.
\<close>

fun in_order :: "(error + 'a) list \<Rightarrow> error + 'a list" where
  "in_order [] = Inr []"
| "in_order (r # rs) =
     (case r of
        Inl e \<Rightarrow> Inl e
      | Inr x \<Rightarrow> (case in_order rs of Inl e \<Rightarrow> Inl e | Inr xs \<Rightarrow> Inr (x # xs)))"

text \<open>
  The call \<^verbatim>\<open>v.hasOwnProperty(k)\<close>. It first reads the property \<^verbatim>\<open>hasOwnProperty\<close> of
  \<^verbatim>\<open>v\<close>: on \<^verbatim>\<open>null\<close> and \<^verbatim>\<open>undefined\<close> that read raises a TypeError, and when \<^verbatim>\<open>v\<close>
  has an own property of this name, the value found is not a function and the call
  raises a TypeError. Otherwise the method of \<^verbatim>\<open>Object.prototype\<close> answers: the
  enumerable own properties, and the non-enumerable \<^verbatim>\<open>length\<close> of an array or a string.
\<close>

definition hasOwnProperty :: "jsval \<Rightarrow> string \<Rightarrow> error + bool" where
  "hasOwnProperty v k =
     (if v = JNull \<or> v = JUndefined \<or> ''hasOwnProperty'' \<in> set (Object_keys v)
      then Inl TypeError
      else Inr (k \<in> set (Object_keys v) \<or> (has_length v \<and> k = ''length'')))"

text \<open>
  The property read \<^verbatim>\<open>v.k\<close> for the names the detector reads (id, uniqueKey, name,
  title, location, address, job, type, category): an own property of an object, and
  \<^verbatim>\<open>undefined\<close> on arrays, strings, numbers and booleans, none of which defines one of
  these names. A read from \<^verbatim>\<open>null\<close> raises instead; the one place where the source can
  do that is modelled in \<open>mapItems\<close>.
\<close>

fun get_prop :: "jsval \<Rightarrow> string \<Rightarrow> jsval" where
  "get_prop (JObj ps) k = (case map_of ps k of Some v \<Rightarrow> v | None \<Rightarrow> JUndefined)"
| "get_prop _ k = JUndefined"

text \<open>
  Defining a property in an object literal after a spread: an existing key keeps its
  place and takes the new value, a new key goes last.
\<close>

fun set_prop :: "(string \<times> jsval) list \<Rightarrow> string \<Rightarrow> jsval \<Rightarrow> (string \<times> jsval) list" where
  "set_prop [] k v = [(k, v)]"
| "set_prop (p # ps) k v = (if fst p = k then (k, v) # ps else p # set_prop ps k v)"

fun join :: "string \<Rightarrow> string list \<Rightarrow> string" where
  "join sep [] = []"
| "join sep [x] = x"
| "join sep (x # y # ys) = x @ sep @ join sep (y # ys)"

text \<open>
  Four functions of the JavaScript runtime are taken as given: \<^verbatim>\<open>JSON.parse\<close> (\<open>None\<close>
  when it throws a SyntaxError), the conversion of a number to its decimal string, and the
  sum and the product of two finite doubles whose result is finite (the exact result,
  rounded to a double).
\<close>

record host =
  JSON_parse :: "string \<Rightarrow> jsval option"
  Number_toString :: "64 word \<Rightarrow> string"
  Number_add :: "real \<Rightarrow> real \<Rightarrow> real"
  Number_mul :: "real \<Rightarrow> real \<Rightarrow> real"

text \<open>
  \<^verbatim>\<open>ToString\<close>, which \<^verbatim>\<open>Array.prototype.join\<close> applies to each element; inside an array,
  \<^verbatim>\<open>null\<close> and \<^verbatim>\<open>undefined\<close> become the empty string. An object is converted by its
  \<^verbatim>\<open>toString\<close> method; when an own property shadows it, the conversion goes on to
  \<^verbatim>\<open>valueOf\<close>, gets no primitive value and raises a TypeError.
\<close>

fun to_string :: "host \<Rightarrow> jsval \<Rightarrow> error + string" where
  "to_string h JUndefined = Inr ''undefined''"
| "to_string h JNull = Inr ''null''"
| "to_string h (JBool b) = Inr (if b then ''true'' else ''false'')"
| "to_string h (JNum w) = Inr (Number_toString h w)"
| "to_string h (JStr s) = Inr s"
| "to_string h (JArr xs) =
     (case in_order
             (map (\<lambda>x. if x = JUndefined \<or> x = JNull then Inr [] else to_string h x) xs) of
        Inl e \<Rightarrow> Inl e
      | Inr parts \<Rightarrow> Inr (join '','' parts))"
| "to_string h (JObj ps) =
     (if ''toString'' \<in> set (Object_keys (JObj ps)) then Inl TypeError
      else Inr ''[object Object]'')"

fun starts_with :: "string \<Rightarrow> string \<Rightarrow> bool" where
  "starts_with s [] = True"
| "starts_with [] (p # ps) = False"
| "starts_with (c # cs) (p # ps) = (c = p \<and> starts_with cs ps)"

text \<open>\<^verbatim>\<open>s.includes(sub)\<close>.\<close>

fun str_includes :: "string \<Rightarrow> string \<Rightarrow> bool" where
  "str_includes [] sub = starts_with [] sub"
| "str_includes (c # cs) sub = (starts_with (c # cs) sub \<or> str_includes cs sub)"

section \<open>Configuration\<close>

text \<open>
  The \<^verbatim>\<open>CONFIG\<close> object, restricted to the two groups the polling engine reads.
  Durations are milliseconds and counts are non-negative integers, so both are natural
  numbers.
\<close>

record timing_cfg =
  pollingInterval :: nat
  baseBackoffDelay :: nat
  maxBackoffDelay :: nat

record changeDetection_cfg =
  ignoreFields :: "string list"
  onlyNotifyNewLeads :: bool
  minNewLeadsToNotify :: nat
  deduplicationWindow :: nat

record config =
  timing :: timing_cfg
  changeDetection :: changeDetection_cfg

definition CONFIG :: config where
  "CONFIG =
     \<lparr>timing = \<lparr>pollingInterval = 1000, baseBackoffDelay = 1000, maxBackoffDelay = 30000\<rparr>,
      changeDetection =
        \<lparr>ignoreFields = [''timestamp'', ''csrf'', ''session'', ''time'', ''date'',
                          ''updated_at'', ''created_at''],
         onlyNotifyNewLeads = True,
         minNewLeadsToNotify = 1,
         deduplicationWindow = 5000\<rparr>\<rparr>"

section \<open>Change detection on parsed arrays\<close>

text \<open>
  \<^verbatim>\<open>createUniqueKey(lead)\<close>: the truthy ones of seven properties, in this order, joined
  by a bar; \<^verbatim>\<open>join\<close> converts each part to a string.
\<close>

definition createUniqueKey :: "host \<Rightarrow> jsval \<Rightarrow> error + string" where
  "createUniqueKey h lead =
     (let keyParts =
        filter truthy
          (map (get_prop lead)
             [''name'', ''title'', ''location'', ''address'', ''job'', ''type'', ''category''])
      in case in_order (map (to_string h) keyParts) of
           Inl e \<Rightarrow> Inl e
         | Inr parts \<Rightarrow> Inr (join ''|'' parts))"

text \<open>
  The callback of \<^verbatim>\<open>fieldsToCompare.every\<close> in \<^verbatim>\<open>areLeadsEqual\<close>, field after field:
  \<^verbatim>\<open>every\<close> stops at the first field whose callback returns false, and
  \<^verbatim>\<open>lead2.hasOwnProperty\<close> is called only when \<^verbatim>\<open>lead1\<close> has the field.
\<close>

fun everyField :: "jsval \<Rightarrow> jsval \<Rightarrow> string list \<Rightarrow> error + bool" where
  "everyField lead1 lead2 [] = Inr True"
| "everyField lead1 lead2 (field # others) =
     (case hasOwnProperty lead1 field of
        Inl e \<Rightarrow> Inl e
      | Inr own1 \<Rightarrow>
          if \<not> own1 then everyField lead1 lead2 others
          else
            (case hasOwnProperty lead2 field of
               Inl e \<Rightarrow> Inl e
             | Inr own2 \<Rightarrow>
                 if \<not> own2 then everyField lead1 lead2 others
                 else if strict_eq (get_prop lead1 field) (get_prop lead2 field)
                 then everyField lead1 lead2 others
                 else Inr False))"

text \<open>
  \<^verbatim>\<open>areLeadsEqual(lead1, lead2)\<close>. The method has the configuration at hand as
  \<^verbatim>\<open>this.config\<close> and reads nothing of it.
\<close>

definition areLeadsEqual :: "config \<Rightarrow> jsval \<Rightarrow> jsval \<Rightarrow> error + bool" where
  "areLeadsEqual cfg lead1 lead2 =
     (if truthy (get_prop lead1 ''id'') \<and> truthy (get_prop lead2 ''id'') then
        Inr (strict_eq (get_prop lead1 ''id'') (get_prop lead2 ''id''))
      else if truthy (get_prop lead1 ''uniqueKey'') \<and> truthy (get_prop lead2 ''uniqueKey'') then
        Inr (strict_eq (get_prop lead1 ''uniqueKey'') (get_prop lead2 ''uniqueKey''))
      else
        (let fieldsToCompare =
           [''name'', ''title'', ''location'', ''address'', ''job'', ''type'', ''category'']
         in everyField lead1 lead2 fieldsToCompare))"

text \<open>
  \<^verbatim>\<open>leadProperties.some(prop => obj.hasOwnProperty(prop))\<close>: \<^verbatim>\<open>some\<close> stops at the first
  property the object has.
\<close>

fun someOwnProperty :: "jsval \<Rightarrow> string list \<Rightarrow> error + bool" where
  "someOwnProperty obj [] = Inr False"
| "someOwnProperty obj (prop # props) =
     (case hasOwnProperty obj prop of
        Inl e \<Rightarrow> Inl e
      | Inr own \<Rightarrow> if own then Inr True else someOwnProperty obj props)"

definition isLikelyLeadObject :: "jsval \<Rightarrow> error + bool" where
  "isLikelyLeadObject obj =
     (let leadProperties =
            [''id'', ''name'', ''title'', ''description'', ''location'', ''address'', ''job'',
             ''type'', ''category'']
      in case someOwnProperty obj leadProperties of
           Inl e \<Rightarrow> Inl e
         | Inr hasLeadProperties \<Rightarrow>
             (let objKeys = Object_keys obj;
                  hasLeadLikeKeys =
                    list_ex
                      (\<lambda>key. str_includes key ''lead'' \<or> str_includes key ''job''
                            \<or> str_includes key ''customer'' \<or> str_includes key ''client'')
                      objKeys
              in Inr (hasLeadProperties \<or> hasLeadLikeKeys)))"

text \<open>
  What both branches of \<^verbatim>\<open>extractLeadObjects\<close> do with an item they keep: an item
  without a truthy id is copied with a \<^verbatim>\<open>uniqueKey\<close> property,
  \<^verbatim>\<open>{ ...item, uniqueKey }\<close>; an item with one is kept as it is.
\<close>

definition withUniqueKey :: "host \<Rightarrow> jsval \<Rightarrow> error + jsval" where
  "withUniqueKey h item =
     (if \<not> truthy (get_prop item ''id'') then
        (case createUniqueKey h item of
           Inl e \<Rightarrow> Inl e
         | Inr uniqueKey \<Rightarrow> Inr (JObj (set_prop (own_props item) ''uniqueKey'' (JStr uniqueKey))))
      else Inr item)"

text \<open>
  The first half of the inner function \<^verbatim>\<open>processItem\<close>: the lead it pushes for an
  object or array that looks like a lead, if any.
\<close>

definition pushIfLikely :: "host \<Rightarrow> jsval \<Rightarrow> error + jsval list" where
  "pushIfLikely h item =
     (case isLikelyLeadObject item of
        Inl e \<Rightarrow> Inl e
      | Inr likely \<Rightarrow>
          if likely then
            (case withUniqueKey h item of Inl e \<Rightarrow> Inl e | Inr lead \<Rightarrow> Inr [lead])
          else Inr [])"

text \<open>
  The inner function \<^verbatim>\<open>processItem\<close> of the nested search; the result lists the leads it
  pushes, in order. Only objects and arrays pass its guard
  \<^verbatim>\<open>item && typeof item === 'object'\<close>.
\<close>

function processItem :: "host \<Rightarrow> jsval \<Rightarrow> error + jsval list" where
  "processItem h (JArr xs) =
     (case pushIfLikely h (JArr xs) of
        Inl e \<Rightarrow> Inl e
      | Inr pushed \<Rightarrow>
          (case in_order (map (processItem h) xs) of
             Inl e \<Rightarrow> Inl e
           | Inr below \<Rightarrow> Inr (pushed @ concat below)))"
| "processItem h (JObj ps) =
     (case pushIfLikely h (JObj ps) of
        Inl e \<Rightarrow> Inl e
      | Inr pushed \<Rightarrow>
          (case in_order
                  (map (\<lambda>val. if truthy val \<and> typeof_object val then processItem h val
                              else Inr [])
                     (Object_values (JObj ps))) of
             Inl e \<Rightarrow> Inl e
           | Inr below \<Rightarrow> Inr (pushed @ concat below)))"
| "processItem h JUndefined = Inr []"
| "processItem h JNull = Inr []"
| "processItem h (JBool b) = Inr []"
| "processItem h (JNum w) = Inr []"
| "processItem h (JStr s) = Inr []"
  by pat_completeness auto
termination
proof (relation "measure (\<lambda>(h, item). size item)")
  show "wf (measure (\<lambda>(h, item). size item))"
    by simp
next
  fix h :: host and xs :: "jsval list" and x :: jsval
  assume "x \<in> set xs"
  then have "size x \<le> size_list size xs"
    by (induction xs) auto
  then show "((h, x), (h, JArr xs)) \<in> measure (\<lambda>(h, item). size item)"
    by simp
next
  fix h :: host and ps :: "(string \<times> jsval) list" and x :: jsval
  assume "x \<in> set (Object_values (JObj ps))"
  then have "x \<in> snd ` set ps"
    by (simp add: Object_values_def)
  then have "size x \<le> size_list (size_prod (\<lambda>k. 0) size) ps"
    by (induction ps) force+
  then show "((h, x), (h, JObj ps)) \<in> measure (\<lambda>(h, item). size item)"
    by simp
qed

text \<open>
  The \<^verbatim>\<open>array.map\<close> of the direct branch. Reading \<^verbatim>\<open>item.id\<close> from a \<^verbatim>\<open>null\<close> element
  raises a TypeError, which ends the whole call.
\<close>

fun mapItems :: "host \<Rightarrow> jsval list \<Rightarrow> error + jsval list" where
  "mapItems h [] = Inr []"
| "mapItems h (item # rest) =
     (if item = JNull \<or> item = JUndefined then Inl TypeError
      else (case withUniqueKey h item of
              Inl e \<Rightarrow> Inl e
            | Inr lead \<Rightarrow>
                (case mapItems h rest of
                   Inl e \<Rightarrow> Inl e
                 | Inr leads \<Rightarrow> Inr (lead # leads))))"

definition extractLeadObjects :: "host \<Rightarrow> jsval list \<Rightarrow> error + jsval list" where
  "extractLeadObjects h array =
     (if (case array of [] \<Rightarrow> False | first # _ \<Rightarrow> typeof_object first \<and> first \<noteq> JNull)
      then mapItems h array
      else processItem h (JArr array))"

text \<open>The object \<^verbatim>\<open>{ hasChanges, newLeads }\<close> both detection modes return.\<close>

record changes =
  hasChanges :: bool
  newLeads :: "jsval list"

text \<open>
  \<^verbatim>\<open>previousLeads.some(prevLead => this.areLeadsEqual(prevLead, currentLead))\<close>, which
  stops at the first equal lead, and the \<^verbatim>\<open>currentLeads.filter\<close> around it.
\<close>

fun someEqual :: "config \<Rightarrow> jsval list \<Rightarrow> jsval \<Rightarrow> error + bool" where
  "someEqual cfg [] currentLead = Inr False"
| "someEqual cfg (prevLead # rest) currentLead =
     (case areLeadsEqual cfg prevLead currentLead of
        Inl e \<Rightarrow> Inl e
      | Inr equal \<Rightarrow> if equal then Inr True else someEqual cfg rest currentLead)"

fun filterNew :: "config \<Rightarrow> jsval list \<Rightarrow> jsval list \<Rightarrow> error + jsval list" where
  "filterNew cfg previousLeads [] = Inr []"
| "filterNew cfg previousLeads (currentLead # rest) =
     (case someEqual cfg previousLeads currentLead of
        Inl e \<Rightarrow> Inl e
      | Inr known \<Rightarrow>
          (case filterNew cfg previousLeads rest of
             Inl e \<Rightarrow> Inl e
           | Inr new \<Rightarrow> Inr (if \<not> known then currentLead # new else new)))"

definition detectLeadChangesFromArrays ::
  "host \<Rightarrow> config \<Rightarrow> jsval list \<Rightarrow> jsval list \<Rightarrow> error + changes" where
  "detectLeadChangesFromArrays h cfg previousArray currentArray =
     (case extractLeadObjects h previousArray of
        Inl e \<Rightarrow> Inl e
      | Inr previousLeads \<Rightarrow>
          (case extractLeadObjects h currentArray of
             Inl e \<Rightarrow> Inl e
           | Inr currentLeads \<Rightarrow>
               (case filterNew cfg previousLeads currentLeads of
                  Inl e \<Rightarrow> Inl e
                | Inr new \<Rightarrow> Inr \<lparr>hasChanges = (length new > 0), newLeads = new\<rparr>)))"

section \<open>Change detection on raw text\<close>

text \<open>
  The regular expressions of \<^verbatim>\<open>removeDynamicContent\<close> and \<^verbatim>\<open>extractLeadIdentifiers\<close>
  are sequences of character classes under a greedy quantifier \<open>{lo,hi}\<close> (\<open>None\<close> for no
  upper bound). \<open>match_here\<close> is the backtracking matcher for such a sequence: each class
  first takes as many characters as it can and gives them back one at a time while the
  rest of the pattern fails. Its result is the length of the match found at the start of
  the string.
\<close>

datatype char_class = Digit | WordChar | OneOf string | NoneOf string

fun in_class :: "char_class \<Rightarrow> char \<Rightarrow> bool" where
  "in_class Digit c = (c \<in> set ''0123456789'')"
| "in_class WordChar c =
     (c \<in> set ''abcdefghijklmnopqrstuvwxyzABCDEFGHIJKLMNOPQRSTUVWXYZ0123456789_'')"
| "in_class (OneOf cs) c = (c \<in> set cs)"
| "in_class (NoneOf cs) c = (c \<notin> set cs)"

datatype quantified = Rep char_class nat "nat option"

type_synonym regex = "quantified list"

fun most :: "char_class \<Rightarrow> nat option \<Rightarrow> string \<Rightarrow> nat" where
  "most cl None s = length (takeWhile (in_class cl) s)"
| "most cl (Some hi) s = min hi (length (takeWhile (in_class cl) s))"

text \<open>
  \<open>try_counts rest s lo k\<close>: the class in front has taken \<open>k\<close> characters of \<open>s\<close>; match
  the rest of the pattern behind them, or else try again with \<open>k - 1\<close>, down to \<open>lo\<close>.
\<close>

function match_here :: "regex \<Rightarrow> string \<Rightarrow> nat option"
  and try_counts :: "regex \<Rightarrow> string \<Rightarrow> nat \<Rightarrow> nat \<Rightarrow> nat option" where
  "match_here [] s = Some 0"
| "match_here (Rep cl lo hi # rest) s = try_counts rest s lo (most cl hi s)"
| "try_counts rest s lo k =
     (if k < lo then None
      else (case match_here rest (drop k s) of
              Some n \<Rightarrow> Some (k + n)
            | None \<Rightarrow> (if k = 0 then None else try_counts rest s lo (k - 1))))"
  by pat_completeness auto
termination
  by (relation "inv_image (less_than <*lex*> less_than)
        (\<lambda>x. case x of Inl (re, s) \<Rightarrow> (length re, 0)
                | Inr (rest, s, lo, k) \<Rightarrow> (length rest, Suc k))") auto

text \<open>
  \<^verbatim>\<open>s.replace(re, r)\<close> with the \<^verbatim>\<open>g\<close> flag: scan from the left, replace each match and
  go on behind it; the replacement is not scanned again. An empty match inserts the
  replacement and moves on by one character.
\<close>

fun replace_global :: "regex \<Rightarrow> string \<Rightarrow> string \<Rightarrow> string" where
  "replace_global re r [] = (case match_here re [] of Some n \<Rightarrow> r | None \<Rightarrow> [])"
| "replace_global re r (c # cs) =
     (case match_here re (c # cs) of
        None \<Rightarrow> c # replace_global re r cs
      | Some n \<Rightarrow>
          (if n = 0 then r @ c # replace_global re r cs
           else r @ replace_global re r (drop (n - 1) cs)))"

text \<open>\<^verbatim>\<open>s.match(re) || []\<close> with the \<^verbatim>\<open>g\<close> flag: all matches from left to right.\<close>

fun match_global :: "regex \<Rightarrow> string \<Rightarrow> string list" where
  "match_global re [] = (case match_here re [] of Some n \<Rightarrow> [[]] | None \<Rightarrow> [])"
| "match_global re (c # cs) =
     (case match_here re (c # cs) of
        None \<Rightarrow> match_global re cs
      | Some n \<Rightarrow>
          (if n = 0 then [] # match_global re cs
           else take n (c # cs) # match_global re (drop (n - 1) cs)))"

definition once :: "char_class \<Rightarrow> quantified" where
  "once cl = Rep cl 1 (Some 1)"

definition lit :: "string \<Rightarrow> regex" where
  "lit s = map (\<lambda>c. once (OneOf [c])) s"

text \<open>A literal under the \<^verbatim>\<open>i\<close> flag: each letter in lower or upper case.\<close>

definition lit_i :: "(char \<times> char) list \<Rightarrow> regex" where
  "lit_i s = map (\<lambda>(l, u). once (OneOf [l, u])) s"

text \<open>The double and the single quote.\<close>

definition quotes :: string where
  "quotes = [CHR 0x22, CHR 0x27]"

text \<open>\<^verbatim>\<open>/\d{2}:\d{2}:\d{2}/g\<close>\<close>

definition re_time :: regex where
  "re_time = [Rep Digit 2 (Some 2)] @ lit '':'' @ [Rep Digit 2 (Some 2)] @ lit '':''
             @ [Rep Digit 2 (Some 2)]"

text \<open>\<^verbatim>\<open>/\d{1,2}\/\d{1,2}\/\d{2,4}/g\<close>\<close>

definition re_date_slash :: regex where
  "re_date_slash = [Rep Digit 1 (Some 2)] @ lit ''/'' @ [Rep Digit 1 (Some 2)] @ lit ''/''
                   @ [Rep Digit 2 (Some 4)]"

text \<open>\<^verbatim>\<open>/\d{4}-\d{2}-\d{2}/g\<close>\<close>

definition re_date_iso :: regex where
  "re_date_iso = [Rep Digit 4 (Some 4)] @ lit ''-'' @ [Rep Digit 2 (Some 2)] @ lit ''-''
                 @ [Rep Digit 2 (Some 2)]"

text \<open>\<^verbatim>\<open>/csrf[^"']+["'][^"']+["']/gi\<close>\<close>

definition re_csrf :: regex where
  "re_csrf = lit_i (zip ''csrf'' ''CSRF'')
             @ [Rep (NoneOf quotes) 1 None, once (OneOf quotes),
                Rep (NoneOf quotes) 1 None, once (OneOf quotes)]"

text \<open>\<^verbatim>\<open>/session[^"']+["'][^"']+["']/gi\<close>\<close>

definition re_session :: regex where
  "re_session = lit_i (zip ''session'' ''SESSION'')
             @ [Rep (NoneOf quotes) 1 None, once (OneOf quotes),
                Rep (NoneOf quotes) 1 None, once (OneOf quotes)]"

text \<open>\<^verbatim>\<open>/lead-\w+/g\<close>\<close>

definition leadIdRegex :: regex where
  "leadIdRegex = lit ''lead-'' @ [Rep WordChar 1 None]"

definition removeDynamicContent :: "string \<Rightarrow> string" where
  "removeDynamicContent data =
     (let cleanData = data;
          cleanData = replace_global re_time ''TIMESTAMP'' cleanData;
          cleanData = replace_global re_date_slash ''DATE'' cleanData;
          cleanData = replace_global re_date_iso ''DATE'' cleanData;
          cleanData = replace_global re_csrf ''CSRF_TOKEN'' cleanData;
          cleanData = replace_global re_session ''SESSION_ID'' cleanData
      in cleanData)"

definition extractLeadIdentifiers :: "string \<Rightarrow> string list" where
  "extractLeadIdentifiers data = (let leadIds = match_global leadIdRegex data in leadIds)"

text \<open>
  \<^verbatim>\<open>detectLeadChangesFromStrings(previousData, currentData)\<close>. Every new lead is stamped
  with \<^verbatim>\<open>new Date().toISOString()\<close>, read once per lead: \<open>clock k\<close> is the string that
  read number \<open>k\<close> of this call returns. The local the source calls \<^verbatim>\<open>hasChanges\<close> is
  \<open>changed\<close> here, \<^verbatim>\<open>newLeads\<close> is \<open>new\<close>.
\<close>

definition detectLeadChangesFromStrings ::
  "(nat \<Rightarrow> string) \<Rightarrow> string \<Rightarrow> string \<Rightarrow> changes" where
  "detectLeadChangesFromStrings clock previousData currentData =
     (let cleanPrevData = removeDynamicContent previousData;
          cleanCurrData = removeDynamicContent currentData;
          changed = (cleanPrevData \<noteq> cleanCurrData);
          prevLeadIds = extractLeadIdentifiers previousData;
          currLeadIds = extractLeadIdentifiers currentData;
          newLeadIds = filter (\<lambda>id. id \<notin> set prevLeadIds) currLeadIds;
          new = map (\<lambda>(k, id). JObj [(''id'', JStr id), (''detectedAt'', JStr (clock k))])
                  (enumerate 0 newLeadIds)
      in \<lparr>hasChanges = (changed \<and> length new > 0), newLeads = new\<rparr>)"

definition detectLeadChanges ::
  "host \<Rightarrow> config \<Rightarrow> (nat \<Rightarrow> string) \<Rightarrow> string \<Rightarrow> string \<Rightarrow> jsval \<Rightarrow> jsval
   \<Rightarrow> error + changes" where
  "detectLeadChanges h cfg clock previousData currentData previousArray currentArray =
     (if isArray previousArray \<and> isArray currentArray then
        detectLeadChangesFromArrays h cfg (elements previousArray) (elements currentArray)
      else Inr (detectLeadChangesFromStrings clock previousData currentData))"

section \<open>Backoff delay\<close>

text \<open>
  A JavaScript number as the backoff computation meets it: a finite double, given by its
  value, or \<^verbatim>\<open>Infinity\<close>, or \<^verbatim>\<open>NaN\<close>.
\<close>

datatype number = Finite real | Infinity | NaN

text \<open>
  \<^verbatim>\<open>Math.pow(2, retryCount)\<close> for a count 0, 1, 2, ...: the power is a double up to
  \<open>2 ^ 1023\<close> and overflows to \<^verbatim>\<open>Infinity\<close> from 1024 on.
\<close>

definition Math_pow2 :: "nat \<Rightarrow> number" where
  "Math_pow2 n = (if n < 1024 then Finite (2 ^ n) else Infinity)"

text \<open>Every finite double is below \<open>2 ^ 1024\<close>.\<close>

definition double_limit :: nat where
  "double_limit = 2 ^ 1024"

text \<open>
  The product \<^verbatim>\<open>baseBackoffDelay * Math.pow(2, retryCount)\<close>. The product of a double
  and a power of two is exact unless it overflows to \<^verbatim>\<open>Infinity\<close>; zero times
  \<^verbatim>\<open>Infinity\<close> is \<^verbatim>\<open>NaN\<close>.
\<close>

fun multiply :: "nat \<Rightarrow> number \<Rightarrow> number" where
  "multiply b (Finite p) =
     (if real b * p < real double_limit then Finite (real b * p) else Infinity)"
| "multiply b Infinity = (if b = 0 then NaN else Infinity)"
| "multiply b NaN = NaN"

text \<open>\<^verbatim>\<open>Math.min(x, maxBackoffDelay)\<close>, which is \<^verbatim>\<open>NaN\<close> when \<^verbatim>\<open>x\<close> is.\<close>

fun Math_min :: "number \<Rightarrow> nat \<Rightarrow> number" where
  "Math_min (Finite x) m = Finite (min x (real m))"
| "Math_min Infinity m = Finite (real m)"
| "Math_min NaN m = NaN"

text \<open>The sum \<^verbatim>\<open>delay + jitter\<close> with a finite jitter.\<close>

fun add_jitter :: "host \<Rightarrow> number \<Rightarrow> real \<Rightarrow> number" where
  "add_jitter h (Finite d) j = Finite (Number_add h d j)"
| "add_jitter h Infinity j = Infinity"
| "add_jitter h NaN j = NaN"

text \<open>The local \<^verbatim>\<open>delay\<close> of \<^verbatim>\<open>getBackoffDelay\<close>: the delay before the jitter.\<close>

definition cappedDelay :: "config \<Rightarrow> nat \<Rightarrow> number" where
  "cappedDelay cfg retryCount =
     Math_min (multiply (baseBackoffDelay (timing cfg)) (Math_pow2 retryCount))
       (maxBackoffDelay (timing cfg))"

text \<open>
  \<^verbatim>\<open>getBackoffDelay(retryCount)\<close>: the capped exponential delay plus the jitter
  \<^verbatim>\<open>Math.random() * 1000\<close>. The value \<open>rnd\<close> is the result of that call of
  \<^verbatim>\<open>Math.random()\<close>, a double in \<open>[0, 1)\<close>.
\<close>

definition getBackoffDelay :: "host \<Rightarrow> config \<Rightarrow> real \<Rightarrow> nat \<Rightarrow> number" where
  "getBackoffDelay h cfg rnd retryCount =
     (let delay = cappedDelay cfg retryCount
      in add_jitter h delay (Number_mul h rnd 1000))"

section \<open>Notification deduplication\<close>

text \<open>
  The fields of the detector that \<^verbatim>\<open>shouldSendNotification\<close> reads and writes. The
  JavaScript \<^verbatim>\<open>Set\<close> of identities is a set. Identities are primitive values (strings
  in the spec), on which the membership test of \<^verbatim>\<open>Set\<close> is equality; an identity
  that is an object or an array would be compared by reference, which the model does
  not track.
\<close>

record 'i notification_state =
  lastNotificationTime :: int
  lastNotifiedLeadIds :: "'i set"

text \<open>
  \<^verbatim>\<open>shouldSendNotification(leadIds)\<close>, with \<open>now\<close> the value \<^verbatim>\<open>Date.now()\<close> returns in
  this call. The result is the returned boolean and the state after the call.
\<close>

definition shouldSendNotification ::
  "config \<Rightarrow> int \<Rightarrow> 'i list \<Rightarrow> ('i, 'm) notification_state_scheme
   \<Rightarrow> bool \<times> ('i, 'm) notification_state_scheme" where
  "shouldSendNotification cfg now leadIds st =
     (if now - lastNotificationTime st < int (deduplicationWindow (changeDetection cfg)) then
        (if \<exists>i \<in> set leadIds. i \<in> lastNotifiedLeadIds st then (False, st)
         else (True, st\<lparr>lastNotificationTime := now,
                         lastNotifiedLeadIds := lastNotifiedLeadIds st \<union> set leadIds\<rparr>))
      else (True, st\<lparr>lastNotificationTime := now,
                      lastNotifiedLeadIds := {} \<union> set leadIds\<rparr>))"

text \<open>
  The deduplication algorithm as the specification words it: first clear the set when
  the window has elapsed; then suppress when the window is still active and an incoming
  identity is in the set; otherwise stamp the time and add every incoming identity.
\<close>

definition ShouldNotify_spec ::
  "nat \<Rightarrow> int \<Rightarrow> 'i list \<Rightarrow> ('i, 'm) notification_state_scheme
   \<Rightarrow> bool \<times> ('i, 'm) notification_state_scheme" where
  "ShouldNotify_spec window now identities st =
     (let elapsed = (now - lastNotificationTime st \<ge> int window);
          st1 = (if elapsed then st\<lparr>lastNotifiedLeadIds := {}\<rparr> else st)
      in if \<not> elapsed \<and> (\<exists>i \<in> set identities. i \<in> lastNotifiedLeadIds st1) then (False, st1)
         else (True, st1\<lparr>lastNotificationTime := now,
                         lastNotifiedLeadIds := lastNotifiedLeadIds st1 \<union> set identities\<rparr>))"

text \<open>The notification fields of a freshly constructed detector: time 0, empty set.\<close>

definition initial_notification_state :: "'i notification_state" where
  "initial_notification_state = \<lparr>lastNotificationTime = 0, lastNotifiedLeadIds = {}\<rparr>"

section \<open>One polling cycle\<close>

text \<open>
  The fields of \<^verbatim>\<open>this\<close> the polling engine uses. \<^verbatim>\<open>previousLeadsData\<close> is \<open>None\<close> for
  \<^verbatim>\<open>null\<close>; \<^verbatim>\<open>previousLeadsArray\<close> is \<open>JNull\<close> until a response has parsed as JSON;
  \<^verbatim>\<open>cookies\<close> is \<open>None\<close> for \<^verbatim>\<open>null\<close>.
\<close>

record detector = "jsval notification_state" +
  previousLeadsData :: "string option"
  previousLeadsArray :: jsval
  retryCount :: nat
  loginRetryCount :: nat
  cookies :: "(string \<times> string) list option"
  isRunning :: bool

text \<open>
  What an HTTP request comes to: the response with its status code, its
  \<^verbatim>\<open>Location\<close> header if any and its body, or the \<^verbatim>\<open>error\<close> event of the request.
\<close>

datatype http_result =
    Response (statusCode: nat) (location: "string option") (body: string)
  | RequestError

text \<open>How the promise an \<^verbatim>\<open>async\<close> method returns is settled.\<close>

datatype 'a settled = Resolved 'a | Rejected error

text \<open>
  What a cycle does to the outside, in order: a call of \<^verbatim>\<open>handleRelogin\<close>, a POST of a
  payload to the webhook, a \<^verbatim>\<open>setTimeout\<close> that schedules the next call of
  \<^verbatim>\<open>pollLeadsData\<close> after a delay.
\<close>

datatype effect = ReloginInvoked | WebhookPost jsval | SetTimeout number

text \<open>
  What a cycle receives from outside: the result of the GET, the result of the POST if
  one is made, the value of \<^verbatim>\<open>Date.now()\<close>, the strings of
  \<^verbatim>\<open>new Date().toISOString()\<close> in the text-mode detection and in the payload, and the
  value of \<^verbatim>\<open>Math.random()\<close>.
\<close>

record env =
  fetch_response :: http_result
  webhook_response :: http_result
  date_now :: int
  diff_clock :: "nat \<Rightarrow> string"
  payload_timestamp :: string
  random :: real

text \<open>
  \<^verbatim>\<open>handleRelogin()\<close> is called without \<^verbatim>\<open>await\<close>: the caller goes on when it reaches
  its first \<^verbatim>\<open>await\<close>. Up to there it increments \<^verbatim>\<open>loginRetryCount\<close>; the login in the
  browser that follows is outside the model.
\<close>

definition handleRelogin :: "detector \<Rightarrow> detector" where
  "handleRelogin st = st\<lparr>loginRetryCount := loginRetryCount st + 1\<rparr>"

text \<open>
  \<^verbatim>\<open>fetchLeadsData()\<close>. With \<^verbatim>\<open>this.cookies\<close> null the \<^verbatim>\<open>map\<close> raises inside the
  \<^verbatim>\<open>try\<close> and the method returns null. Otherwise the promise is resolved or rejected by
  the callbacks of the request.
\<close>

definition fetchLeadsData ::
  "detector \<Rightarrow> http_result \<Rightarrow> string option settled \<times> detector \<times> effect list" where
  "fetchLeadsData st res =
     (case cookies st of
        None \<Rightarrow> (Resolved None, st, [])
      | Some cs \<Rightarrow>
          (case res of
             RequestError \<Rightarrow> (Rejected TransportError, st, [])
           | Response code loc data \<Rightarrow>
               if code = 401 \<or> code = 403
                  \<or> (case loc of None \<Rightarrow> False
                      | Some l \<Rightarrow> l \<noteq> [] \<and> str_includes l ''/login'')
               then (Resolved None, handleRelogin st, [ReloginInvoked])
               else if code < 200 \<or> code \<ge> 300 then (Rejected (HttpError code), st, [])
               else (Resolved (Some data), st, [])))"

text \<open>
  \<^verbatim>\<open>sendWebhookNotification(data)\<close>: one request; the response callback resolves the
  promise with \<^verbatim>\<open>statusCode >= 200 && statusCode < 300\<close>, the \<^verbatim>\<open>error\<close> callback rejects
  it. The promise is returned without \<^verbatim>\<open>await\<close>, so the \<^verbatim>\<open>catch\<close> block of the method
  (\<^verbatim>\<open>return false\<close>) does not see the rejection.
\<close>

definition sendWebhookNotification :: "jsval \<Rightarrow> http_result \<Rightarrow> bool settled \<times> effect list" where
  "sendWebhookNotification data res =
     (case res of
        Response code loc content \<Rightarrow> (Resolved (200 \<le> code \<and> code < 300), [WebhookPost data])
      | RequestError \<Rightarrow> (Rejected TransportError, [WebhookPost data]))"

text \<open>\<^verbatim>\<open>lead.id || lead.uniqueKey\<close>\<close>

definition leadIdentity :: "jsval \<Rightarrow> jsval" where
  "leadIdentity lead =
     (if truthy (get_prop lead ''id'') then get_prop lead ''id'' else get_prop lead ''uniqueKey'')"

text \<open>
  The retry block, which \<^verbatim>\<open>pollLeadsData\<close> has twice (after a falsy fetch result and in
  its \<^verbatim>\<open>catch\<close>): increment \<^verbatim>\<open>retryCount\<close> and schedule the next poll after the backoff
  delay.
\<close>

definition retryWithBackoff ::
  "host \<Rightarrow> config \<Rightarrow> env \<Rightarrow> detector \<Rightarrow> detector \<times> effect list" where
  "retryWithBackoff h cfg e st =
     (let st' = st\<lparr>retryCount := retryCount st + 1\<rparr>;
          backoffDelay = getBackoffDelay h cfg (random e) (retryCount st')
      in (st', [SetTimeout backoffDelay]))"

text \<open>The end of a successful poll: reset \<^verbatim>\<open>retryCount\<close>, schedule the next poll.\<close>

definition scheduleNext :: "config \<Rightarrow> detector \<Rightarrow> detector \<times> effect list" where
  "scheduleNext cfg st =
     (st\<lparr>retryCount := 0\<rparr>, [SetTimeout (Finite (real (pollingInterval (timing cfg))))])"

text \<open>The two assignments that store the current data as the previous data.\<close>

definition storeSnapshot :: "string \<Rightarrow> jsval \<Rightarrow> detector \<Rightarrow> detector" where
  "storeSnapshot leadsData currentLeadsArray st =
     st\<lparr>previousLeadsData := Some leadsData, previousLeadsArray := currentLeadsArray\<rparr>"

text \<open>Effects that happened before the rest of the cycle.\<close>

definition after :: "effect list \<Rightarrow> detector \<times> effect list \<Rightarrow> detector \<times> effect list" where
  "after fx r = (fst r, fx @ snd r)"

text \<open>
  \<^verbatim>\<open>pollLeadsData()\<close>, one call: the detector after it and what it did. An exception
  anywhere in the \<^verbatim>\<open>try\<close> block (a rejected fetch, a TypeError in the detection, a
  rejected delivery) goes to the \<^verbatim>\<open>catch\<close> block, which is the retry block.
\<close>

definition pollLeadsData ::
  "host \<Rightarrow> config \<Rightarrow> env \<Rightarrow> detector \<Rightarrow> detector \<times> effect list" where
  "pollLeadsData h cfg e st =
     (if \<not> isRunning st then (st, [])
      else
        (case fetchLeadsData st (fetch_response e) of
           (Rejected err, st1, fx) \<Rightarrow> after fx (retryWithBackoff h cfg e st1)
         | (Resolved None, st1, fx) \<Rightarrow> after fx (retryWithBackoff h cfg e st1)
         | (Resolved (Some leadsData), st1, fx) \<Rightarrow>
             if leadsData = [] then after fx (retryWithBackoff h cfg e st1)
             else
               (let currentLeadsArray =
                      (case JSON_parse h leadsData of Some v \<Rightarrow> v | None \<Rightarrow> JNull)
                in case previousLeadsData st1 of
                     None \<Rightarrow>
                       after fx
                         (storeSnapshot leadsData currentLeadsArray st1,
                          [SetTimeout (Finite (real (pollingInterval (timing cfg))))])
                   | Some previousData \<Rightarrow>
                       (case detectLeadChanges h cfg (diff_clock e) previousData leadsData
                               (previousLeadsArray st1) currentLeadsArray of
                          Inl err \<Rightarrow> after fx (retryWithBackoff h cfg e st1)
                        | Inr ch \<Rightarrow>
                            if hasChanges ch
                               \<and> length (newLeads ch)
                                   \<ge> minNewLeadsToNotify (changeDetection cfg)
                            then
                              (case shouldSendNotification cfg (date_now e)
                                      (map leadIdentity (newLeads ch)) st1 of
                                 (True, st2) \<Rightarrow>
                                   (case sendWebhookNotification
                                           (JObj [(''event'', JStr ''new_leads_detected''),
                                                  (''method'', JStr ''polling''),
                                                  (''leads'', JArr (newLeads ch)),
                                                  (''timestamp'', JStr (payload_timestamp e))])
                                           (webhook_response e) of
                                      (Rejected err, wfx) \<Rightarrow>
                                        after (fx @ wfx) (retryWithBackoff h cfg e st2)
                                    | (Resolved ok, wfx) \<Rightarrow>
                                        after (fx @ wfx)
                                          (scheduleNext cfg
                                             (storeSnapshot leadsData currentLeadsArray st2)))
                               | (False, st2) \<Rightarrow>
                                   after fx
                                     (scheduleNext cfg
                                        (storeSnapshot leadsData currentLeadsArray st2)))
                            else if hasChanges ch then
                              after fx
                                (scheduleNext cfg (storeSnapshot leadsData currentLeadsArray st1))
                            else after fx (scheduleNext cfg st1)))))"

text \<open>A running detector after login, before its first poll.\<close>

definition fresh_detector :: detector where
  "fresh_detector =
     \<lparr>lastNotificationTime = 0, lastNotifiedLeadIds = {},
      previousLeadsData = None, previousLeadsArray = JNull,
      retryCount = 0, loginRetryCount = 0,
      cookies = Some [(''session_id'', ''abc'')], isRunning = True\<rparr>"

section \<open>Vocabulary of the properties and example inputs\<close>

text \<open>
  The seven properties \<^verbatim>\<open>createUniqueKey\<close> and the field comparison of
  \<^verbatim>\<open>areLeadsEqual\<close> go through, and all the properties \<^verbatim>\<open>areLeadsEqual\<close> reads, the
  method \<^verbatim>\<open>hasOwnProperty\<close> among them.
\<close>

definition keyFields :: "string list" where
  "keyFields = [''name'', ''title'', ''location'', ''address'', ''job'', ''type'', ''category'']"

definition readFields :: "string list" where
  "readFields = ''id'' # ''uniqueKey'' # ''hasOwnProperty'' # keyFields"

text \<open>
  The comparison \<^verbatim>\<open>a >= b\<close> of two numbers, which is false when one of them is
  \<^verbatim>\<open>NaN\<close>.
\<close>

fun number_ge :: "number \<Rightarrow> number \<Rightarrow> bool" where
  "number_ge NaN b = False"
| "number_ge (Finite x) NaN = False"
| "number_ge Infinity NaN = False"
| "number_ge Infinity (Finite y) = True"
| "number_ge Infinity Infinity = True"
| "number_ge (Finite x) Infinity = False"
| "number_ge (Finite x) (Finite y) = (y \<le> x)"

text \<open>A lead with no truthy id and none of the seven key fields as an own property.\<close>

definition lacksIdAndKeyFields :: "jsval \<Rightarrow> bool" where
  "lacksIdAndKeyFields lead =
     (\<not> truthy (get_prop lead ''id'')
      \<and> list_all (\<lambda>field. field \<notin> set (Object_keys lead)) keyFields)"

text \<open>A lead with an own property named \<^verbatim>\<open>hasOwnProperty\<close>.\<close>

definition shadowsHasOwnProperty :: "jsval \<Rightarrow> bool" where
  "shadowsHasOwnProperty lead = (''hasOwnProperty'' \<in> set (Object_keys lead))"

text \<open>
  The runtime as far as the examples use it: none of their response bodies is JSON, so
  \<^verbatim>\<open>JSON.parse\<close> throws on each; no number is converted to a string; the sums and
  products they compute (a half times 1000, 2000 plus 500) are exact.
\<close>

definition example_host :: host where
  "example_host =
     \<lparr>JSON_parse = (\<lambda>s. None), Number_toString = (\<lambda>w. []),
      Number_add = (\<lambda>x y. x + y), Number_mul = (\<lambda>x y. x * y)\<rparr>"

text \<open>Two clocks, one millisecond apart.\<close>

definition example_clock :: "nat \<Rightarrow> string" where
  "example_clock k = ''2025-04-25T02:39:56.000Z''"

definition later_clock :: "nat \<Rightarrow> string" where
  "later_clock k = ''2025-04-25T02:39:56.001Z''"

text \<open>A cycle whose GET is answered with status 200 and the given body.\<close>

definition example_env :: "string \<Rightarrow> http_result \<Rightarrow> env" where
  "example_env leadsData webhook =
     \<lparr>fetch_response = Response 200 None leadsData,
      webhook_response = webhook,
      date_now = 1745548796000,
      diff_clock = example_clock,
      payload_timestamp = ''2025-04-25T02:39:56.000Z'',
      random = 1 / 2\<rparr>"

text \<open>A detector that has stored the given response text in an earlier poll.\<close>

definition polled_detector :: "string \<Rightarrow> detector" where
  "polled_detector previousData = fresh_detector\<lparr>previousLeadsData := Some previousData\<rparr>"

text \<open>The default configuration with \<^verbatim>\<open>ignoreFields: ['name']\<close>.\<close>

definition ignore_name_config :: config where
  "ignore_name_config =
     CONFIG\<lparr>changeDetection := (changeDetection CONFIG)\<lparr>ignoreFields := [''name'']\<rparr>\<rparr>"

text \<open>The default configuration with \<^verbatim>\<open>baseBackoffDelay: 0\<close>.\<close>

definition zero_base_config :: config where
  "zero_base_config = CONFIG\<lparr>timing := (timing CONFIG)\<lparr>baseBackoffDelay := 0\<rparr>\<rparr>"

text \<open>
  Two response texts that differ only inside a time of day, which
  \<^verbatim>\<open>removeDynamicContent\<close> replaces, while the lead identifier in front of it reaches
  into its first digits.
\<close>

definition retimed_detector :: detector where
  "retimed_detector = polled_detector ''lead-12:34:56''"

definition retimed_env :: env where
  "retimed_env = example_env ''lead-13:34:56'' (Response 200 None [])"

text \<open>A GET answered with status 401; a GET answered with status 200 and no body.\<close>

definition unauthorized_env :: env where
  "unauthorized_env = (example_env [] RequestError)\<lparr>fetch_response := Response 401 None []\<rparr>"

definition empty_body_env :: env where
  "empty_body_env = example_env [] RequestError"

text \<open>
  A cycle that finds the new lead \<^verbatim>\<open>lead-a\<close> and whose POST is answered with status
  500, on a detector that has failed three times in a row.
\<close>

definition failed_delivery_env :: env where
  "failed_delivery_env = example_env ''lead-a'' (Response 500 None [])"

definition retried_detector :: detector where
  "retried_detector = (polled_detector ''x'')\<lparr>retryCount := 3\<rparr>"

section \<open>Properties of the backoff delay\<close>

lemma backoff_cap_mono:
  "min (b * 2 ^ n) (m::nat) \<le> min (b * 2 ^ Suc n) m"
  by (simp add: min_def)

lemma backoff_cap_stays:
  assumes "(m::nat) \<le> b * 2 ^ n" and "n \<le> k"
  shows "min (b * 2 ^ k) m = m"
proof -
  have "(2::nat) ^ n \<le> 2 ^ k" using assms(2) by (simp add: power_increasing)
  then have "b * 2 ^ n \<le> b * 2 ^ k" by (rule mult_le_mono2)
  with assms(1) have "m \<le> b * 2 ^ k" by (rule order_trans)
  then show ?thesis by (rule min.absorb2)
qed

text \<open>
  As long as the product is a number (a positive base delay, or a retry count below
  1024) and the cap is a finite double, the delay before the jitter is the minimum the
  specification gives; then it never decreases with the retry count, and from the
  count at which it reaches the cap it stays there.
\<close>

lemma double_limit_positive: "0 < double_limit"
  by (simp add: double_limit_def)

lemma double_limit_power:
  assumes "1024 \<le> n"
  shows "double_limit \<le> 2 ^ n"
  unfolding double_limit_def using assms
  by (intro power_increasing) simp_all

lemma cappedDelay_formula:
  assumes "0 < baseBackoffDelay (timing cfg) \<or> n < 1024"
    and "maxBackoffDelay (timing cfg) < double_limit"
  shows "cappedDelay cfg n =
           Finite (real (min (baseBackoffDelay (timing cfg) * 2 ^ n)
                             (maxBackoffDelay (timing cfg))))"
proof -
  let ?b = "baseBackoffDelay (timing cfg)" and ?m = "maxBackoffDelay (timing cfg)"
  have over: "min (?b * 2 ^ n) ?m = ?m" if "double_limit \<le> ?b * 2 ^ n"
    using that assms(2) by simp
  have product: "real ?b * 2 ^ n = real (?b * 2 ^ n)"
    by simp
  show ?thesis
  proof (cases "n < 1024")
    case True
    show ?thesis
    proof (cases "?b * 2 ^ n < double_limit")
      case fits: True
      then have "real (?b * 2 ^ n) < real double_limit"
        by (simp only: of_nat_less_iff)
      with True show ?thesis
        by (simp add: cappedDelay_def Math_pow2_def product del: of_nat_mult of_nat_power)
    next
      case False
      then have big: "double_limit \<le> ?b * 2 ^ n"
        by simp
      then have "\<not> real (?b * 2 ^ n) < real double_limit"
        by (simp only: of_nat_less_iff not_less)
      with True over [OF big] show ?thesis
        by (simp add: cappedDelay_def Math_pow2_def product del: of_nat_mult of_nat_power)
    qed
  next
    case False
    with assms(1) have pos: "0 < ?b"
      by simp
    from False have "double_limit \<le> 2 ^ n"
      by (intro double_limit_power) simp
    also from pos have "\<dots> \<le> ?b * 2 ^ n"
      by simp
    finally have big: "double_limit \<le> ?b * 2 ^ n" .
    from False pos over [OF big] show ?thesis
      by (simp add: cappedDelay_def Math_pow2_def)
  qed
qed

lemma cappedDelay_monotone:
  assumes "0 < baseBackoffDelay (timing cfg)"
    and "maxBackoffDelay (timing cfg) < double_limit"
  shows "\<exists>x y. cappedDelay cfg n = Finite x \<and> cappedDelay cfg (Suc n) = Finite y \<and> x \<le> y"
proof -
  let ?b = "baseBackoffDelay (timing cfg)" and ?m = "maxBackoffDelay (timing cfg)"
  have "cappedDelay cfg n = Finite (real (min (?b * 2 ^ n) ?m))"
    and "cappedDelay cfg (Suc n) = Finite (real (min (?b * 2 ^ Suc n) ?m))"
    by (rule cappedDelay_formula [OF disjI1 [OF assms(1)] assms(2)])+
  moreover have "real (min (?b * 2 ^ n) ?m) \<le> real (min (?b * 2 ^ Suc n) ?m)"
    using backoff_cap_mono [of ?b n ?m] by (simp only: of_nat_le_iff)
  ultimately show ?thesis
    by blast
qed

lemma cappedDelay_stays_at_cap:
  assumes "0 < baseBackoffDelay (timing cfg)"
    and "maxBackoffDelay (timing cfg) < double_limit"
    and "cappedDelay cfg n = Finite (real (maxBackoffDelay (timing cfg)))"
    and "n \<le> k"
  shows "cappedDelay cfg k = Finite (real (maxBackoffDelay (timing cfg)))"
proof -
  let ?b = "baseBackoffDelay (timing cfg)" and ?m = "maxBackoffDelay (timing cfg)"
  have "cappedDelay cfg n = Finite (real (min (?b * 2 ^ n) ?m))"
    by (rule cappedDelay_formula [OF disjI1 [OF assms(1)] assms(2)])
  with assms(3) have "min (?b * 2 ^ n) ?m = ?m"
    by simp
  then have "?m \<le> ?b * 2 ^ n"
    by (simp add: min_def split: if_splits)
  from backoff_cap_stays [OF this assms(4)] have "min (?b * 2 ^ k) ?m = ?m" .
  moreover have "cappedDelay cfg k = Finite (real (min (?b * 2 ^ k) ?m))"
    by (rule cappedDelay_formula [OF disjI1 [OF assms(1)] assms(2)])
  ultimately show ?thesis
    by simp
qed

text \<open>
  Claim C7, evaluated where it fails. With \<^verbatim>\<open>baseBackoffDelay: 0\<close> the delay before the
  jitter is 0 up to the retry count 1023. At the count 1024 \<^verbatim>\<open>Math.pow(2, 1024)\<close> is
  \<^verbatim>\<open>Infinity\<close>, the product \<^verbatim>\<open>0 * Infinity\<close> is \<^verbatim>\<open>NaN\<close>, \<^verbatim>\<open>Math.min\<close> returns
  \<^verbatim>\<open>NaN\<close> and so does the sum with the jitter: the delay is not the minimum of 0 and
  the cap, and it is not \<^verbatim>\<open>>=\<close> the delay of the count before, with or without the
  jitter.
\<close>

theorem getBackoffDelay_zero_base_NaN:
  "baseBackoffDelay (timing zero_base_config) = 0
   \<and> cappedDelay zero_base_config 1023 = Finite 0
   \<and> cappedDelay zero_base_config 1024 = NaN
   \<and> \<not> number_ge (cappedDelay zero_base_config 1024) (cappedDelay zero_base_config 1023)
   \<and> getBackoffDelay h zero_base_config rnd 1023
       = Finite (Number_add h 0 (Number_mul h rnd 1000))
   \<and> getBackoffDelay h zero_base_config rnd 1024 = NaN
   \<and> \<not> number_ge (getBackoffDelay h zero_base_config rnd 1024)
           (getBackoffDelay h zero_base_config rnd 1023)"
proof -
  have base: "baseBackoffDelay (timing zero_base_config) = 0"
    by (simp add: zero_base_config_def)
  have before: "cappedDelay zero_base_config 1023 = Finite 0"
    by (simp add: cappedDelay_def base Math_pow2_def double_limit_positive)
  have from_there: "cappedDelay zero_base_config 1024 = NaN"
    by (simp add: cappedDelay_def base Math_pow2_def)
  from base before from_there show ?thesis
    by (simp add: getBackoffDelay_def)
qed

section \<open>Properties of the deduplication\<close>

lemma shouldSendNotification_refines_spec:
  "shouldSendNotification cfg now ids st =
     ShouldNotify_spec (deduplicationWindow (changeDetection cfg)) now ids st"
  by (simp add: shouldSendNotification_def ShouldNotify_spec_def Let_def not_le)

lemma shouldSendNotification_elapsed:
  assumes "int (deduplicationWindow (changeDetection cfg)) \<le> now - lastNotificationTime st"
  shows "shouldSendNotification cfg now ids st =
           (True, st\<lparr>lastNotificationTime := now, lastNotifiedLeadIds := set ids\<rparr>)"
  using assms by (simp add: shouldSendNotification_def)

lemma shouldSendNotification_suppressed:
  assumes "now - lastNotificationTime st < int (deduplicationWindow (changeDetection cfg))"
    and "i \<in> set ids" and "i \<in> lastNotifiedLeadIds st"
  shows "shouldSendNotification cfg now ids st = (False, st)"
  using assms by (auto simp: shouldSendNotification_def)

lemma shouldSendNotification_allowed:
  assumes "fst (shouldSendNotification cfg now ids st)"
  shows "lastNotificationTime (snd (shouldSendNotification cfg now ids st)) = now
         \<and> set ids \<subseteq> lastNotifiedLeadIds (snd (shouldSendNotification cfg now ids st))"
  using assms by (auto simp: shouldSendNotification_def split: if_splits)

lemma shouldSendNotification_fresh:
  "fst (shouldSendNotification cfg t0 ids initial_notification_state)"
  by (simp add: shouldSendNotification_def initial_notification_state_def)

lemma shouldSendNotification_repeat:
  assumes window: "deduplicationWindow (changeDetection cfg) = 5000"
    and first: "fst (shouldSendNotification cfg t0 [a] st)"
  shows "\<not> fst (shouldSendNotification cfg (t0 + 100) [a] (snd (shouldSendNotification cfg t0 [a] st)))"
    and "fst (shouldSendNotification cfg (t0 + 6000) [a] (snd (shouldSendNotification cfg t0 [a] st)))"
proof -
  let ?s1 = "snd (shouldSendNotification cfg t0 [a] st)"
  from shouldSendNotification_allowed [OF first]
  have time: "lastNotificationTime ?s1 = t0" and mem: "a \<in> lastNotifiedLeadIds ?s1"
    by simp_all
  have "shouldSendNotification cfg (t0 + 100) [a] ?s1 = (False, ?s1)"
    by (rule shouldSendNotification_suppressed [where i = a]) (simp_all add: time mem window)
  then show "\<not> fst (shouldSendNotification cfg (t0 + 100) [a] ?s1)"
    by simp
  have "int (deduplicationWindow (changeDetection cfg)) \<le> (t0 + 6000) - lastNotificationTime ?s1"
    by (simp add: time window)
  from shouldSendNotification_elapsed [OF this]
  show "fst (shouldSendNotification cfg (t0 + 6000) [a] ?s1)"
    by simp
qed

text \<open>
  Claim C2. \<^verbatim>\<open>shouldSendNotification\<close> is the specified deduplication algorithm: it computes
  what \<open>ShouldNotify_spec\<close> computes; when the window has elapsed the old set is discarded
  (the set afterwards holds the incoming identities only); when the window is active and
  one incoming identity is in the set, the call returns false and changes nothing; every
  call that returns true stamps \<open>now\<close> and leaves every incoming identity in the set. With
  a window of 5000 ms, a call with identity "A" that returned true is followed by false
  100 ms later and by true 6000 ms later, and the first call on a fresh detector returns
  true.
\<close>

theorem shouldSendNotification_dedup:
  "shouldSendNotification cfg now ids st =
     ShouldNotify_spec (deduplicationWindow (changeDetection cfg)) now ids st
   \<and> (int (deduplicationWindow (changeDetection cfg)) \<le> now - lastNotificationTime st \<longrightarrow>
        shouldSendNotification cfg now ids st =
          (True, st\<lparr>lastNotificationTime := now, lastNotifiedLeadIds := set ids\<rparr>))
   \<and> (now - lastNotificationTime st < int (deduplicationWindow (changeDetection cfg))
        \<and> (\<exists>i \<in> set ids. i \<in> lastNotifiedLeadIds st) \<longrightarrow>
        shouldSendNotification cfg now ids st = (False, st))
   \<and> (fst (shouldSendNotification cfg now ids st) \<longrightarrow>
        lastNotificationTime (snd (shouldSendNotification cfg now ids st)) = now
        \<and> set ids \<subseteq> lastNotifiedLeadIds (snd (shouldSendNotification cfg now ids st)))
   \<and> fst (shouldSendNotification cfg t0 [''A''] initial_notification_state)
   \<and> (deduplicationWindow (changeDetection cfg) = 5000
        \<and> fst (shouldSendNotification cfg t0 [''A''] st0) \<longrightarrow>
        \<not> fst (shouldSendNotification cfg (t0 + 100) [''A'']
                 (snd (shouldSendNotification cfg t0 [''A''] st0)))
        \<and> fst (shouldSendNotification cfg (t0 + 6000) [''A'']
                 (snd (shouldSendNotification cfg t0 [''A''] st0))))"
proof (intro conjI impI)
  show "shouldSendNotification cfg now ids st =
     ShouldNotify_spec (deduplicationWindow (changeDetection cfg)) now ids st"
    by (rule shouldSendNotification_refines_spec)
next
  assume "int (deduplicationWindow (changeDetection cfg)) \<le> now - lastNotificationTime st"
  then show "shouldSendNotification cfg now ids st =
          (True, st\<lparr>lastNotificationTime := now, lastNotifiedLeadIds := set ids\<rparr>)"
    by (rule shouldSendNotification_elapsed)
next
  assume "now - lastNotificationTime st < int (deduplicationWindow (changeDetection cfg))
        \<and> (\<exists>i \<in> set ids. i \<in> lastNotifiedLeadIds st)"
  then show "shouldSendNotification cfg now ids st = (False, st)"
    by (blast intro: shouldSendNotification_suppressed)
next
  assume ok: "fst (shouldSendNotification cfg now ids st)"
  from shouldSendNotification_allowed [OF ok]
  show "lastNotificationTime (snd (shouldSendNotification cfg now ids st)) = now"
    and "set ids \<subseteq> lastNotifiedLeadIds (snd (shouldSendNotification cfg now ids st))"
    by simp_all
next
  show "fst (shouldSendNotification cfg t0 [''A''] initial_notification_state)"
    by (rule shouldSendNotification_fresh)
next
  assume h: "deduplicationWindow (changeDetection cfg) = 5000
        \<and> fst (shouldSendNotification cfg t0 [''A''] st0)"
  from h shouldSendNotification_repeat(1) [of cfg t0 "''A''" st0]
  show "\<not> fst (shouldSendNotification cfg (t0 + 100) [''A'']
                 (snd (shouldSendNotification cfg t0 [''A''] st0)))"
    by blast
  from h shouldSendNotification_repeat(2) [of cfg t0 "''A''" st0]
  show "fst (shouldSendNotification cfg (t0 + 6000) [''A'']
                 (snd (shouldSendNotification cfg t0 [''A''] st0)))"
    by blast
qed

text \<open>
  Claim C2 at a concrete input: the default window of 5000 ms and a fresh detector.
\<close>

theorem shouldSendNotification_dedup_witness:
  "deduplicationWindow (changeDetection CONFIG) = 5000
   \<and> fst (shouldSendNotification CONFIG 1700000000000 [''A''] initial_notification_state)
   \<and> \<not> fst (shouldSendNotification CONFIG (1700000000000 + 100) [''A'']
            (snd (shouldSendNotification CONFIG 1700000000000 [''A'']
                    initial_notification_state)))
   \<and> fst (shouldSendNotification CONFIG (1700000000000 + 6000) [''A'']
            (snd (shouldSendNotification CONFIG 1700000000000 [''A'']
                    initial_notification_state)))"
proof -
  note C2 = shouldSendNotification_dedup
    [of CONFIG 0 "[]" initial_notification_state 1700000000000 initial_notification_state]
  have window: "deduplicationWindow (changeDetection CONFIG) = 5000"
    by (simp add: CONFIG_def)
  from C2 have first:
    "fst (shouldSendNotification CONFIG 1700000000000 [''A''] initial_notification_state)"
    by blast
  from C2 window first show ?thesis
    by blast
qed

section \<open>Properties of the equality of leads\<close>

lemma map_of_set_prop:
  "map_of (set_prop ps k v) k' = (if k' = k then Some v else map_of ps k')"
  by (induction ps) auto

lemma keys_set_prop: "fst ` set (set_prop ps k v) = insert k (fst ` set ps)"
  by (induction ps) auto

lemma hasOwnProperty_object:
  "hasOwnProperty (JObj ps) k =
     (if ''hasOwnProperty'' \<in> fst ` set ps then Inl TypeError else Inr (k \<in> fst ` set ps))"
  by (simp add: hasOwnProperty_def Object_keys_def)

lemma get_prop_absent:
  assumes "k \<notin> set (Object_keys (JObj ps))"
  shows "get_prop (JObj ps) k = JUndefined"
proof -
  from assms have "k \<notin> fst ` set ps"
    by (simp add: Object_keys_def)
  then have "map_of ps k = None"
    by (simp add: map_of_eq_None_iff)
  then show ?thesis by simp
qed

text \<open>
  The field comparison with a first lead that has none of the fields: true when the
  lead has its method \<^verbatim>\<open>hasOwnProperty\<close>, a TypeError when an own property shadows it.
\<close>

lemma everyField_first_lacks:
  assumes "\<not> shadowsHasOwnProperty (JObj ps)"
    and "\<forall>field \<in> set fs. field \<notin> set (Object_keys (JObj ps))"
  shows "everyField (JObj ps) lead2 fs = Inr True"
  using assms
  by (induction fs) (simp_all add: hasOwnProperty_def shadowsHasOwnProperty_def)

lemma everyField_first_shadowed:
  assumes "shadowsHasOwnProperty lead1"
  shows "everyField lead1 lead2 (field # others) = Inl TypeError"
  using assms by (simp add: hasOwnProperty_def shadowsHasOwnProperty_def)

lemma areLeadsEqual_without_keys:
  assumes "lacksIdAndKeyFields (JObj ps)" and "\<not> shadowsHasOwnProperty (JObj ps)"
    and "\<not> truthy (get_prop (JObj ps) ''uniqueKey'')"
  shows "areLeadsEqual cfg (JObj ps) lead2 = Inr True"
proof -
  from assms(1) have "\<forall>field \<in> set keyFields. field \<notin> set (Object_keys (JObj ps))"
    by (simp add: lacksIdAndKeyFields_def list_all_iff)
  from everyField_first_lacks [OF assms(2) this]
  have "everyField (JObj ps) lead2 keyFields = Inr True" .
  with assms(1,3) show ?thesis
    by (simp add: areLeadsEqual_def lacksIdAndKeyFields_def keyFields_def del: get_prop.simps)
qed

text \<open>
  A lead that comes out of \<^verbatim>\<open>extractLeadObjects\<close> is \<open>withUniqueKey\<close> of an item, and
  an object. Without a truthy id and without any of the seven key fields its derived
  \<^verbatim>\<open>uniqueKey\<close> is the empty string.
\<close>

lemma createUniqueKey_empty:
  assumes "list_all (\<lambda>field. \<not> truthy (get_prop item field)) keyFields"
  shows "createUniqueKey h item = Inr []"
  using assms by (simp add: createUniqueKey_def keyFields_def)

lemma withUniqueKey_object:
  assumes "withUniqueKey h item = Inr lead"
  shows "\<exists>ps. lead = JObj ps"
proof (cases "truthy (get_prop item ''id'')")
  case True
  then obtain ps where "item = JObj ps"
    by (cases item) simp_all
  with True assms show ?thesis
    by (auto simp: withUniqueKey_def)
next
  case False
  with assms show ?thesis
    by (auto simp: withUniqueKey_def split: sum.splits)
qed

lemma withUniqueKey_key_empty:
  assumes made: "withUniqueKey h item = Inr lead" and shape: "lacksIdAndKeyFields lead"
  shows "get_prop lead ''uniqueKey'' = JStr []"
proof (cases "truthy (get_prop item ''id'')")
  case True
  with made have "lead = item"
    by (simp add: withUniqueKey_def)
  with shape True show ?thesis
    by (simp add: lacksIdAndKeyFields_def)
next
  case False
  with made obtain key where key: "createUniqueKey h item = Inr key"
    and lead: "lead = JObj (set_prop (own_props item) ''uniqueKey'' (JStr key))"
    by (auto simp: withUniqueKey_def split: sum.splits)
  have "list_all (\<lambda>field. \<not> truthy (get_prop item field)) keyFields"
  proof (cases item)
    case (JObj ps)
    from shape lead JObj
    have "\<forall>field \<in> set keyFields. field \<notin> insert ''uniqueKey'' (fst ` set ps)"
      by (simp add: lacksIdAndKeyFields_def list_all_iff Object_keys_def keys_set_prop)
    then have "\<forall>field \<in> set keyFields. field \<notin> set (Object_keys (JObj ps))"
      by (simp add: Object_keys_def)
    then have "\<forall>field \<in> set keyFields. get_prop (JObj ps) field = JUndefined"
      by (blast intro: get_prop_absent)
    then show ?thesis
      by (simp add: list_all_iff JObj)
  qed (simp_all add: keyFields_def)
  then have "createUniqueKey h item = Inr []"
    by (rule createUniqueKey_empty)
  with key lead show ?thesis
    by (simp add: map_of_set_prop)
qed

lemma mapItems_leads:
  assumes "mapItems h items = Inr leads" and "l \<in> set leads"
  shows "\<exists>item. withUniqueKey h item = Inr l"
  using assms
proof (induction items arbitrary: leads)
  case Nil
  then show ?case by simp
next
  case (Cons item rest)
  then show ?case
    by (auto split: if_splits sum.splits)
qed

lemma in_order_member:
  assumes "in_order (map f xs) = Inr ys" and "y \<in> set ys"
  shows "\<exists>x \<in> set xs. f x = Inr y"
  using assms
proof (induction xs arbitrary: ys)
  case Nil
  then show ?case by simp
next
  case (Cons x xs)
  from Cons.prems(1) obtain z zs where z: "f x = Inr z"
    and zs: "in_order (map f xs) = Inr zs" and ys: "ys = z # zs"
    by (auto split: sum.splits)
  from Cons.prems(2) ys consider "y = z" | "y \<in> set zs"
    by auto
  then show ?case
  proof cases
    case 1
    with z show ?thesis by simp
  next
    case 2
    from Cons.IH [OF zs 2] show ?thesis by auto
  qed
qed

lemma pushIfLikely_leads:
  assumes "pushIfLikely h item = Inr pushed" and "l \<in> set pushed"
  shows "withUniqueKey h item = Inr l"
  using assms
  by (auto simp: pushIfLikely_def split: sum.splits if_splits)

lemma processItem_array:
  assumes "processItem h (JArr xs) = Inr leads"
  shows "\<exists>pushed below. pushIfLikely h (JArr xs) = Inr pushed
           \<and> in_order (map (processItem h) xs) = Inr below
           \<and> leads = pushed @ concat below"
  using assms by (simp split: sum.splits)

lemma processItem_object:
  assumes "processItem h (JObj ps) = Inr leads"
  shows "\<exists>pushed below. pushIfLikely h (JObj ps) = Inr pushed
           \<and> in_order
                (map (\<lambda>val. if truthy val \<and> typeof_object val then processItem h val
                            else Inr [])
                   (Object_values (JObj ps))) = Inr below
           \<and> leads = pushed @ concat below"
  using assms by (simp split: sum.splits)

lemma processItem_leads:
  assumes "processItem h v = Inr leads" and "l \<in> set leads"
  shows "\<exists>item. withUniqueKey h item = Inr l"
  using assms
proof (induction h v arbitrary: leads l rule: processItem.induct)
  case (1 h xs)
  from processItem_array [OF "1.prems"(1)] obtain pushed below
    where pushed: "pushIfLikely h (JArr xs) = Inr pushed"
      and below: "in_order (map (processItem h) xs) = Inr below"
      and leads: "leads = pushed @ concat below"
    by blast
  from "1.prems"(2) leads consider "l \<in> set pushed" | "l \<in> set (concat below)"
    by auto
  then show ?case
  proof cases
    case 1
    with pushed show ?thesis by (blast dest: pushIfLikely_leads)
  next
    case 2
    then obtain ls where ls: "ls \<in> set below" "l \<in> set ls"
      by auto
    from in_order_member [OF below ls(1)] obtain x
      where x: "x \<in> set xs" "processItem h x = Inr ls"
      by blast
    from "1.IH" [OF pushed x(1) x(2) ls(2)] show ?thesis .
  qed
next
  case (2 h ps)
  let ?f = "\<lambda>val. if truthy val \<and> typeof_object val then processItem h val else Inr []"
  from processItem_object [OF "2.prems"(1)] obtain pushed below
    where pushed: "pushIfLikely h (JObj ps) = Inr pushed"
      and below: "in_order (map ?f (Object_values (JObj ps))) = Inr below"
      and leads: "leads = pushed @ concat below"
    by blast
  from "2.prems"(2) leads consider "l \<in> set pushed" | "l \<in> set (concat below)"
    by auto
  then show ?case
  proof cases
    case 1
    with pushed show ?thesis by (blast dest: pushIfLikely_leads)
  next
    case 2
    then obtain ls where ls: "ls \<in> set below" "l \<in> set ls"
      by auto
    from in_order_member [OF below ls(1)] obtain x
      where x: "x \<in> set (Object_values (JObj ps))" "?f x = Inr ls"
      by blast
    show ?thesis
    proof (cases "truthy x \<and> typeof_object x")
      case True
      with x(2) have "processItem h x = Inr ls"
        by simp
      from "2.IH" [OF pushed x(1) True this ls(2)] show ?thesis .
    next
      case False
      with x(2) ls(2) show ?thesis
        by simp
    qed
  qed
qed simp_all

lemma extractLeadObjects_leads:
  assumes "extractLeadObjects h array = Inr leads" and "l \<in> set leads"
  shows "\<exists>item. withUniqueKey h item = Inr l"
  using assms
  by (auto simp: extractLeadObjects_def simp del: processItem.simps split: if_splits
        dest: mapItems_leads processItem_leads)

text \<open>
  A baseline lead without a truthy id, without any of the seven key fields and with its
  method \<^verbatim>\<open>hasOwnProperty\<close> equals every lead.
\<close>

lemma keyless_baseline_masks_all:
  assumes "extractLeadObjects h previousArray = Inr previousLeads"
    and "p \<in> set previousLeads" and "lacksIdAndKeyFields p" and "\<not> shadowsHasOwnProperty p"
  shows "areLeadsEqual cfg p c = Inr True"
proof -
  from extractLeadObjects_leads [OF assms(1,2)] obtain item
    where item: "withUniqueKey h item = Inr p"
    by blast
  from withUniqueKey_object [OF item] obtain ps where ps: "p = JObj ps"
    by blast
  from withUniqueKey_key_empty [OF item assms(3)]
  have "\<not> truthy (get_prop p ''uniqueKey'')"
    by simp
  with assms(3,4) ps show ?thesis
    by (simp add: areLeadsEqual_without_keys del: get_prop.simps)
qed

lemma someEqual_member:
  assumes "p \<in> set previousLeads"
    and "\<forall>q \<in> set previousLeads. \<exists>b. areLeadsEqual cfg q c = Inr b"
    and "areLeadsEqual cfg p c = Inr True"
  shows "someEqual cfg previousLeads c = Inr True"
  using assms
  by (induction previousLeads) auto

lemma filterNew_subset:
  assumes "filterNew cfg previousLeads currentLeads = Inr new" and "c \<in> set new"
  shows "c \<in> set currentLeads \<and> someEqual cfg previousLeads c = Inr False"
  using assms
  by (induction currentLeads arbitrary: new) (auto split: sum.splits if_splits)

text \<open>
  On objects none of which has an own property \<^verbatim>\<open>hasOwnProperty\<close> the comparison
  returns. Hence, when no extracted lead has such a property and the leads of the
  baseline contain one without a truthy id and without any of the seven key fields, the
  array-mode detection returns and reports no lead of the current snapshot as new.
\<close>

lemma everyField_returns:
  assumes "\<not> shadowsHasOwnProperty (JObj ps)" and "\<not> shadowsHasOwnProperty (JObj qs)"
  shows "\<exists>b. everyField (JObj ps) (JObj qs) fs = Inr b"
  using assms
  by (induction fs) (auto simp: hasOwnProperty_def shadowsHasOwnProperty_def)

lemma areLeadsEqual_returns:
  assumes "\<not> shadowsHasOwnProperty (JObj ps)" and "\<not> shadowsHasOwnProperty (JObj qs)"
  shows "\<exists>b. areLeadsEqual cfg (JObj ps) (JObj qs) = Inr b"
proof -
  have "\<exists>b. everyField (JObj ps) (JObj qs)
          [''name'', ''title'', ''location'', ''address'', ''job'', ''type'', ''category'']
        = Inr b"
    by (rule everyField_returns [OF assms])
  then show ?thesis
    unfolding areLeadsEqual_def Let_def
    by (auto simp del: everyField.simps get_prop.simps)
qed

lemma someEqual_returns:
  assumes "\<forall>q \<in> set previousLeads. \<exists>b. areLeadsEqual cfg q c = Inr b"
  shows "\<exists>b. someEqual cfg previousLeads c = Inr b"
  using assms
  by (induction previousLeads) auto

lemma filterNew_returns:
  assumes "\<forall>c \<in> set currentLeads. \<exists>b. someEqual cfg previousLeads c = Inr b"
  shows "\<exists>new. filterNew cfg previousLeads currentLeads = Inr new"
  using assms
  by (induction currentLeads) auto

lemma someEqual_masked:
  assumes "p \<in> set previousLeads" and "areLeadsEqual cfg p c = Inr True"
  shows "someEqual cfg previousLeads c \<noteq> Inr False"
  using assms
proof (induction previousLeads)
  case Nil
  then show ?case by simp
next
  case (Cons q qs)
  then show ?case
    by (cases "areLeadsEqual cfg q c") (auto split: if_splits)
qed

lemma extracted_lead_object:
  assumes "extractLeadObjects h array = Inr leads" and "l \<in> set leads"
  shows "\<exists>ps. l = JObj ps"
  using extractLeadObjects_leads [OF assms] withUniqueKey_object
  by blast

lemma unshadowed_leads_without_keys_never_new:
  assumes prev: "extractLeadObjects h previousArray = Inr previousLeads"
    and p: "p \<in> set previousLeads" "lacksIdAndKeyFields p"
    and cur: "extractLeadObjects h currentArray = Inr currentLeads"
    and plain: "\<forall>q \<in> set previousLeads \<union> set currentLeads. \<not> shadowsHasOwnProperty q"
  shows "detectLeadChangesFromArrays h cfg previousArray currentArray
           = Inr \<lparr>hasChanges = False, newLeads = []\<rparr>"
proof -
  from plain p(1) have "\<not> shadowsHasOwnProperty p"
    by blast
  from keyless_baseline_masks_all [OF prev p this]
  have masks: "\<And>c. areLeadsEqual cfg p c = Inr True" .
  have "\<exists>b. areLeadsEqual cfg q c = Inr b"
    if "q \<in> set previousLeads" and "c \<in> set currentLeads" for q c
  proof -
    from extracted_lead_object [OF prev that(1)] obtain qs where q: "q = JObj qs"
      by blast
    from extracted_lead_object [OF cur that(2)] obtain cs where c: "c = JObj cs"
      by blast
    from plain that q c show ?thesis
      by (auto intro: areLeadsEqual_returns)
  qed
  then have "\<forall>c \<in> set currentLeads. \<exists>b. someEqual cfg previousLeads c = Inr b"
    by (blast intro: someEqual_returns)
  from filterNew_returns [OF this] obtain new
    where new: "filterNew cfg previousLeads currentLeads = Inr new"
    by blast
  have "new = []"
  proof (rule ccontr)
    assume "new \<noteq> []"
    then obtain c where "c \<in> set new"
      by (cases new) auto
    from filterNew_subset [OF new this]
    have "someEqual cfg previousLeads c = Inr False"
      by simp
    with someEqual_masked [OF p(1) masks] show False
      by simp
  qed
  with prev cur new show ?thesis
    by (simp add: detectLeadChangesFromArrays_def)
qed

text \<open>
  \<^verbatim>\<open>areLeadsEqual\<close> does not depend on the configuration, and a property it does not
  read (any name outside \<open>readFields\<close>) does not change its result. The default
  \<^verbatim>\<open>ignoreFields\<close> are such names.
\<close>

lemma areLeadsEqual_config: "areLeadsEqual cfg lead1 lead2 = areLeadsEqual cfg' lead1 lead2"
  by (simp add: areLeadsEqual_def)

lemma get_prop_unread:
  assumes "k' \<noteq> k"
  shows "get_prop (JObj (set_prop ps k v)) k' = get_prop (JObj ps) k'"
  using assms by (simp add: map_of_set_prop)

lemma hasOwnProperty_unread:
  assumes "k' \<noteq> k" and "''hasOwnProperty'' \<noteq> k"
  shows "hasOwnProperty (JObj (set_prop ps k v)) k' = hasOwnProperty (JObj ps) k'"
  using assms by (simp add: hasOwnProperty_object keys_set_prop)

lemma everyField_unread_field:
  assumes "k \<notin> set fs" and "''hasOwnProperty'' \<noteq> k"
  shows "everyField (JObj (set_prop ps k v)) lead2 fs = everyField (JObj ps) lead2 fs"
    and "everyField lead1 (JObj (set_prop ps k v)) fs = everyField lead1 (JObj ps) fs"
  using assms
  by (induction fs)
     (auto simp: get_prop_unread hasOwnProperty_unread simp del: get_prop.simps
           split: sum.splits)

lemma areLeadsEqual_unread_field:
  assumes "k \<notin> set readFields"
  shows "areLeadsEqual cfg (JObj (set_prop ps k v)) lead2 = areLeadsEqual cfg (JObj ps) lead2"
    and "areLeadsEqual cfg lead1 (JObj (set_prop ps k v)) = areLeadsEqual cfg lead1 (JObj ps)"
proof -
  from assms have ne: "''id'' \<noteq> k" "''uniqueKey'' \<noteq> k" "''hasOwnProperty'' \<noteq> k"
    and fs: "k \<notin> set [''name'', ''title'', ''location'', ''address'', ''job'', ''type'',
                        ''category'']"
    by (auto simp: readFields_def keyFields_def)
  show "areLeadsEqual cfg (JObj (set_prop ps k v)) lead2 = areLeadsEqual cfg (JObj ps) lead2"
    unfolding areLeadsEqual_def Let_def
    by (simp only: get_prop_unread [OF ne(1)] get_prop_unread [OF ne(2)]
          everyField_unread_field(1) [OF fs ne(3)])
  show "areLeadsEqual cfg lead1 (JObj (set_prop ps k v)) = areLeadsEqual cfg lead1 (JObj ps)"
    unfolding areLeadsEqual_def Let_def
    by (simp only: get_prop_unread [OF ne(1)] get_prop_unread [OF ne(2)]
          everyField_unread_field(2) [OF fs ne(3)])
qed

lemma default_ignoreFields_unread:
  "\<forall>k \<in> set (ignoreFields (changeDetection CONFIG)). k \<notin> set readFields"
  by (simp add: CONFIG_def readFields_def keyFields_def)

lemma timestamp_scenario:
  "detectLeadChangesFromArrays h CONFIG
     [JObj [(''name'', JStr ''Bob''), (''location'', JStr ''X''),
            (''timestamp'', JStr ''2025-04-25T02:39:56.000Z'')]]
     [JObj [(''name'', JStr ''Bob''), (''location'', JStr ''X''),
            (''timestamp'', JStr ''2025-04-25T02:39:57.000Z'')]]
   = Inr \<lparr>hasChanges = False, newLeads = []\<rparr>"
  by (simp add: detectLeadChangesFromArrays_def extractLeadObjects_def withUniqueKey_def
        createUniqueKey_def areLeadsEqual_def)

text \<open>
  Claim C5, evaluated where it fails. With \<^verbatim>\<open>ignoreFields\<close> configured as
  \<^verbatim>\<open>['name']\<close>, a baseline record named Bob equals a current record named Bob, and
  changing nothing but the name of the current record to Al makes \<^verbatim>\<open>areLeadsEqual\<close>
  return false and the record a new lead: the comparison goes through its fixed list of
  fields and never reads \<^verbatim>\<open>ignoreFields\<close>.
\<close>

theorem areLeadsEqual_ignoreFields_unused:
  "ignoreFields (changeDetection ignore_name_config) = [''name'']
   \<and> detectLeadChangesFromArrays h ignore_name_config
        [JObj [(''name'', JStr ''Bob'')]] [JObj [(''name'', JStr ''Bob'')]]
      = Inr \<lparr>hasChanges = False, newLeads = []\<rparr>
   \<and> detectLeadChangesFromArrays h ignore_name_config
        [JObj [(''name'', JStr ''Bob'')]] [JObj [(''name'', JStr ''Al'')]]
      = Inr \<lparr>hasChanges = True,
             newLeads = [JObj [(''name'', JStr ''Al''), (''uniqueKey'', JStr ''Al'')]]\<rparr>
   \<and> areLeadsEqual ignore_name_config
        (JObj [(''name'', JStr ''Bob''), (''uniqueKey'', JStr ''Bob'')])
        (JObj [(''name'', JStr ''Bob''), (''uniqueKey'', JStr ''Bob'')]) = Inr True
   \<and> areLeadsEqual ignore_name_config
        (JObj [(''name'', JStr ''Bob''), (''uniqueKey'', JStr ''Bob'')])
        (JObj [(''name'', JStr ''Al''), (''uniqueKey'', JStr ''Al'')]) = Inr False
   \<and> areLeadsEqual ignore_name_config
        (JObj [(''name'', JStr ''Bob'')]) (JObj [(''name'', JStr ''Al'')]) = Inr False"
  by (simp add: detectLeadChangesFromArrays_def extractLeadObjects_def withUniqueKey_def
        createUniqueKey_def areLeadsEqual_def ignore_name_config_def hasOwnProperty_def
        Object_keys_def)

text \<open>
  The same evaluation for the two leads as \<^verbatim>\<open>extractLeadObjects\<close> hands them to
  \<^verbatim>\<open>areLeadsEqual\<close>.
\<close>

theorem areLeadsEqual_ignoreFields_unused_witness:
  "ignoreFields (changeDetection ignore_name_config) = [''name'']
   \<and> areLeadsEqual ignore_name_config
        (JObj [(''name'', JStr ''Bob''), (''uniqueKey'', JStr ''Bob'')])
        (JObj [(''name'', JStr ''Al''), (''uniqueKey'', JStr ''Al'')]) = Inr False"
  using areLeadsEqual_ignoreFields_unused [of example_host]
  by blast

text \<open>
  Claim C10, evaluated where it fails. The baseline record
  \<^verbatim>\<open>{hasOwnProperty: 'x'}\<close> and the current record \<^verbatim>\<open>{note: 'call back'}\<close> have no
  id and none of the seven key fields, and the derived \<^verbatim>\<open>uniqueKey\<close> of both is the
  empty string. \<^verbatim>\<open>areLeadsEqual\<close> passes the comparisons of id and \<^verbatim>\<open>uniqueKey\<close> and
  calls \<^verbatim>\<open>lead1.hasOwnProperty('name')\<close>, where \<^verbatim>\<open>lead1.hasOwnProperty\<close> is the string
  \<^verbatim>\<open>'x'\<close>: the call raises a TypeError instead of returning true, and the array-mode
  detection raises it too instead of returning an empty batch.
\<close>

theorem areLeadsEqual_shadowed_method_raises:
  "withUniqueKey h (JObj [(''hasOwnProperty'', JStr ''x'')])
     = Inr (JObj [(''hasOwnProperty'', JStr ''x''), (''uniqueKey'', JStr [])])
   \<and> withUniqueKey h (JObj [(''note'', JStr ''call back'')])
     = Inr (JObj [(''note'', JStr ''call back''), (''uniqueKey'', JStr [])])
   \<and> lacksIdAndKeyFields (JObj [(''hasOwnProperty'', JStr ''x''), (''uniqueKey'', JStr [])])
   \<and> lacksIdAndKeyFields (JObj [(''note'', JStr ''call back''), (''uniqueKey'', JStr [])])
   \<and> areLeadsEqual cfg
        (JObj [(''hasOwnProperty'', JStr ''x''), (''uniqueKey'', JStr [])])
        (JObj [(''note'', JStr ''call back''), (''uniqueKey'', JStr [])]) = Inl TypeError
   \<and> detectLeadChangesFromArrays h cfg
        [JObj [(''hasOwnProperty'', JStr ''x'')]] [JObj [(''note'', JStr ''call back'')]]
      = Inl TypeError"
  by (simp add: detectLeadChangesFromArrays_def extractLeadObjects_def withUniqueKey_def
        createUniqueKey_def areLeadsEqual_def hasOwnProperty_def Object_keys_def
        lacksIdAndKeyFields_def keyFields_def)

section \<open>Properties of the change detection\<close>

lemma stamped_ids:
  "map (\<lambda>lead. get_prop lead ''id'')
     (map (\<lambda>(k, id). JObj [(''id'', JStr id), (''detectedAt'', JStr (clock k))])
        (enumerate n ids)) = map JStr ids"
  by (induction ids arbitrary: n) simp_all

lemma enumerate_empty: "(enumerate n xs = []) = (xs = [])"
  by (cases xs) simp_all

lemma detectLeadChangesFromStrings_ids:
  "map (\<lambda>lead. get_prop lead ''id'') (newLeads (detectLeadChangesFromStrings clock pd cd)) =
     map JStr (filter (\<lambda>id. id \<notin> set (extractLeadIdentifiers pd)) (extractLeadIdentifiers cd))"
  unfolding detectLeadChangesFromStrings_def Let_def
  by (simp only: changes.simps stamped_ids)

lemma detectLeadChangesFromStrings_hasChanges:
  "hasChanges (detectLeadChangesFromStrings clock pd cd) =
     (removeDynamicContent pd \<noteq> removeDynamicContent cd
      \<and> filter (\<lambda>id. id \<notin> set (extractLeadIdentifiers pd)) (extractLeadIdentifiers cd) \<noteq> [])"
  by (simp add: detectLeadChangesFromStrings_def Let_def enumerate_empty)

lemma detectLeadChangesFromStrings_detectedAt:
  assumes "k < length (newLeads (detectLeadChangesFromStrings clock pd cd))"
  shows "get_prop (newLeads (detectLeadChangesFromStrings clock pd cd) ! k) ''detectedAt''
         = JStr (clock k)"
  using assms
  by (simp add: detectLeadChangesFromStrings_def Let_def nth_enumerate_eq)

lemma new_lead_text:
  "detectLeadChangesFromStrings clock ''x'' ''lead-a'' =
     \<lparr>hasChanges = True,
      newLeads = [JObj [(''id'', JStr ''lead-a''), (''detectedAt'', JStr (clock 0))]]\<rparr>"
  by code_simp

lemma retimed_text:
  "detectLeadChangesFromStrings clock ''lead-12:34:56'' ''lead-13:34:56'' =
     \<lparr>hasChanges = False,
      newLeads = [JObj [(''id'', JStr ''lead-13''), (''detectedAt'', JStr (clock 0))]]\<rparr>"
  by code_simp

text \<open>
  Claim C4 as stated fails in the text mode: the same pair of texts, compared at two
  times one millisecond apart, gives two batches that differ in the \<^verbatim>\<open>detectedAt\<close>
  of the new lead.
\<close>

theorem detectLeadChanges_text_counterexample:
  "detectLeadChanges example_host CONFIG example_clock ''x'' ''lead-a'' JNull JNull
   \<noteq> detectLeadChanges example_host CONFIG later_clock ''x'' ''lead-a'' JNull JNull"
  by (simp add: detectLeadChanges_def new_lead_text example_clock_def later_clock_def)

text \<open>
  Claim C4, amended. In the parsed-array mode the result of the detection is the same
  whenever the pair is the same, whatever the clock shows. In the text mode two runs on
  the same pair agree on \<^verbatim>\<open>hasChanges\<close> and on the ids of the new leads, in order; the
  \<^verbatim>\<open>detectedAt\<close> of lead number \<open>k\<close> is what the clock of its own run shows at its
  creation.
\<close>

theorem detectLeadChanges_repeatable:
  "(isArray previousArray \<and> isArray currentArray \<longrightarrow>
      detectLeadChanges h cfg clockA previousData currentData previousArray currentArray =
      detectLeadChanges h cfg clockB previousData currentData previousArray currentArray)
   \<and> hasChanges (detectLeadChangesFromStrings clockA previousData currentData) =
      hasChanges (detectLeadChangesFromStrings clockB previousData currentData)
   \<and> map (\<lambda>lead. get_prop lead ''id'')
        (newLeads (detectLeadChangesFromStrings clockA previousData currentData)) =
      map (\<lambda>lead. get_prop lead ''id'')
        (newLeads (detectLeadChangesFromStrings clockB previousData currentData))
   \<and> (\<forall>k < length (newLeads (detectLeadChangesFromStrings clockA previousData currentData)).
        get_prop (newLeads (detectLeadChangesFromStrings clockA previousData currentData) ! k)
          ''detectedAt'' = JStr (clockA k))"
  by (simp add: detectLeadChanges_def detectLeadChangesFromStrings_ids
        detectLeadChangesFromStrings_hasChanges detectLeadChangesFromStrings_detectedAt)

text \<open>
  Claim C4, amended, at a concrete input: one array pair under two clocks, and the
  stamp of the new lead of a text pair.
\<close>

theorem detectLeadChanges_repeatable_witness:
  "isArray (JArr [JObj [(''id'', JStr ''L1'')]])
   \<and> isArray (JArr [JObj [(''id'', JStr ''L1'')], JObj [(''id'', JStr ''L2'')]])
   \<and> detectLeadChanges example_host CONFIG example_clock ''a'' ''b''
        (JArr [JObj [(''id'', JStr ''L1'')]])
        (JArr [JObj [(''id'', JStr ''L1'')], JObj [(''id'', JStr ''L2'')]])
      = detectLeadChanges example_host CONFIG later_clock ''a'' ''b''
        (JArr [JObj [(''id'', JStr ''L1'')]])
        (JArr [JObj [(''id'', JStr ''L1'')], JObj [(''id'', JStr ''L2'')]])
   \<and> (0::nat) < length (newLeads (detectLeadChangesFromStrings example_clock ''x'' ''lead-a''))
   \<and> get_prop (newLeads (detectLeadChangesFromStrings example_clock ''x'' ''lead-a'') ! 0)
        ''detectedAt'' = JStr ''2025-04-25T02:39:56.000Z''"
proof -
  let ?p = "JArr [JObj [(''id'', JStr ''L1'')]]"
  let ?c = "JArr [JObj [(''id'', JStr ''L1'')], JObj [(''id'', JStr ''L2'')]]"
  note C4 = detectLeadChanges_repeatable
    [where previousArray = ?p and currentArray = ?c and h = example_host and cfg = CONFIG
       and clockA = example_clock and clockB = later_clock
       and previousData = "''a''" and currentData = "''b''"]
  note C4' = detectLeadChanges_repeatable
    [where previousArray = ?p and currentArray = ?c and h = example_host and cfg = CONFIG
       and clockA = example_clock and clockB = later_clock
       and previousData = "''x''" and currentData = "''lead-a''"]
  have arrays: "isArray ?p" "isArray ?c"
    by simp_all
  with C4 have same: "detectLeadChanges example_host CONFIG example_clock ''a'' ''b'' ?p ?c
      = detectLeadChanges example_host CONFIG later_clock ''a'' ''b'' ?p ?c"
    by blast
  have len: "(0::nat) < length (newLeads (detectLeadChangesFromStrings example_clock ''x'' ''lead-a''))"
    by (simp add: new_lead_text)
  with C4' have "get_prop (newLeads (detectLeadChangesFromStrings example_clock ''x'' ''lead-a'') ! 0)
        ''detectedAt'' = JStr (example_clock 0)"
    by blast
  then have stamp: "get_prop (newLeads (detectLeadChangesFromStrings example_clock ''x'' ''lead-a'') ! 0)
        ''detectedAt'' = JStr ''2025-04-25T02:39:56.000Z''"
    by (simp add: example_clock_def)
  from arrays same len stamp show ?thesis
    by blast
qed

section \<open>Properties of the delivery\<close>

text \<open>
  Claim C3, evaluated where it fails. A call makes one POST. On a response the promise
  is resolved with true exactly for a status from 200 to 299 and with false for every
  other status; on a transport error the promise is rejected, so the caller's
  \<^verbatim>\<open>await\<close> raises instead of yielding false.
\<close>

theorem sendWebhookNotification_outcomes:
  "sendWebhookNotification data (Response code loc content) =
     (Resolved (200 \<le> code \<and> code < 300), [WebhookPost data])
   \<and> sendWebhookNotification data RequestError = (Rejected TransportError, [WebhookPost data])"
  by (simp add: sendWebhookNotification_def)

section \<open>Properties of the polling cycle\<close>

lemma fetchLeadsData_success:
  assumes "fetchLeadsData st res = (Resolved (Some leadsData), st1, fx)"
  shows "st1 = st \<and> fx = []"
  using assms
  by (auto simp: fetchLeadsData_def split: option.splits http_result.splits if_splits)

lemma no_login_in_empty: "\<not> str_includes [] ''/login''"
  by simp

lemma fetchLeadsData_auth:
  assumes "cookies st = Some cs" and "res = Response code loc content"
    and "code = 401 \<or> code = 403 \<or> (\<exists>l. loc = Some l \<and> str_includes l ''/login'')"
  shows "fetchLeadsData st res = (Resolved None, handleRelogin st, [ReloginInvoked])"
proof -
  from assms(3) have "code = 401 \<or> code = 403
      \<or> (case loc of None \<Rightarrow> False | Some l \<Rightarrow> l \<noteq> [] \<and> str_includes l ''/login'')"
    using no_login_in_empty by (auto simp del: str_includes.simps starts_with.simps)
  with assms(1,2) show ?thesis
    by (simp add: fetchLeadsData_def del: str_includes.simps)
qed

lemma fetchLeadsData_ok:
  assumes "cookies st = Some cs" and "res = Response code loc content"
    and "200 \<le> code" and "code < 300"
    and "\<forall>l. loc = Some l \<longrightarrow> \<not> str_includes l ''/login''"
  shows "fetchLeadsData st res = (Resolved (Some content), st, [])"
  using assms
  by (auto simp: fetchLeadsData_def simp del: str_includes.simps split: option.splits)

lemma example_fetch:
  "fetchLeadsData (polled_detector previousData\<lparr>retryCount := n\<rparr>)
     (fetch_response (example_env leadsData webhook))
   = (Resolved (Some leadsData), polled_detector previousData\<lparr>retryCount := n\<rparr>, [])"
  by (simp add: fetchLeadsData_def polled_detector_def fresh_detector_def example_env_def)

lemma example_fetch0:
  "fetchLeadsData (polled_detector previousData) (fetch_response (example_env leadsData webhook))
   = (Resolved (Some leadsData), polled_detector previousData, [])"
  by (simp add: fetchLeadsData_def polled_detector_def fresh_detector_def example_env_def)

lemma polled_detector_fields:
  "isRunning (polled_detector previousData)"
  "previousLeadsData (polled_detector previousData) = Some previousData"
  "previousLeadsArray (polled_detector previousData) = JNull"
  "retryCount (polled_detector previousData) = 0"
  by (simp_all add: polled_detector_def fresh_detector_def)

lemma example_parse: "JSON_parse example_host s = None"
  by (simp add: example_host_def)

lemma example_backoff: "getBackoffDelay example_host CONFIG (1 / 2) (Suc 0) = Finite 2500"
  by (simp add: getBackoffDelay_def cappedDelay_def Math_pow2_def CONFIG_def example_host_def
        double_limit_def)

text \<open>
  Claim C8. When the GET is answered with status 401 or 403, or with a
  \<^verbatim>\<open>Location\<close> header that contains \<^verbatim>\<open>/login\<close>, the cycle calls
  \<^verbatim>\<open>handleRelogin\<close> once, increments \<^verbatim>\<open>retryCount\<close> by one and then schedules the
  next poll after the backoff delay; nothing else changes and nothing else is done.
\<close>

theorem pollLeadsData_auth_failure:
  assumes "isRunning st" and "cookies st = Some cs"
    and "fetch_response e = Response code loc content"
    and "code = 401 \<or> code = 403 \<or> (\<exists>l. loc = Some l \<and> str_includes l ''/login'')"
  shows "pollLeadsData h cfg e st =
           (st\<lparr>retryCount := retryCount st + 1, loginRetryCount := loginRetryCount st + 1\<rparr>,
            [ReloginInvoked, SetTimeout (getBackoffDelay h cfg (random e) (retryCount st + 1))])"
proof -
  have "fetchLeadsData st (fetch_response e) = (Resolved None, handleRelogin st, [ReloginInvoked])"
    using assms(2,3,4) by (rule fetchLeadsData_auth)
  with assms(1) show ?thesis
    by (simp add: pollLeadsData_def after_def retryWithBackoff_def handleRelogin_def Let_def)
qed

text \<open>
  Claim C8 at a concrete input: status 401 on a fresh detector.
\<close>

theorem pollLeadsData_auth_failure_witness:
  "isRunning fresh_detector
   \<and> cookies fresh_detector = Some [(''session_id'', ''abc'')]
   \<and> fetch_response unauthorized_env = Response 401 None []
   \<and> pollLeadsData example_host CONFIG unauthorized_env fresh_detector =
       (fresh_detector\<lparr>retryCount := 1, loginRetryCount := 1\<rparr>,
        [ReloginInvoked, SetTimeout (Finite 2500)])"
proof -
  have running: "isRunning fresh_detector"
    and jar: "cookies fresh_detector = Some [(''session_id'', ''abc'')]"
    by (simp_all add: fresh_detector_def)
  have response: "fetch_response unauthorized_env = Response 401 None []"
    by (simp add: unauthorized_env_def example_env_def)
  have status: "(401::nat) = 401 \<or> (401::nat) = 403
      \<or> (\<exists>l. (None :: string option) = Some l \<and> str_includes l ''/login'')"
    by simp
  have delay: "getBackoffDelay example_host CONFIG (random unauthorized_env)
      (retryCount fresh_detector + 1) = Finite 2500"
    by (simp add: example_backoff unauthorized_env_def example_env_def fresh_detector_def)
  from pollLeadsData_auth_failure [OF running jar response status,
      where h = example_host and cfg = CONFIG]
  have "pollLeadsData example_host CONFIG unauthorized_env fresh_detector =
      (fresh_detector\<lparr>retryCount := retryCount fresh_detector + 1,
                        loginRetryCount := loginRetryCount fresh_detector + 1\<rparr>,
       [ReloginInvoked, SetTimeout (Finite 2500)])"
    by (simp only: delay)
  then have "pollLeadsData example_host CONFIG unauthorized_env fresh_detector =
       (fresh_detector\<lparr>retryCount := 1, loginRetryCount := 1\<rparr>,
        [ReloginInvoked, SetTimeout (Finite 2500)])"
    by (simp add: fresh_detector_def)
  with running jar response show ?thesis
    by simp
qed

text \<open>
  Claim C9. When the GET is answered with a status from 200 to 299, no redirect to the
  login and an empty body, the cycle treats it as a failed fetch: \<^verbatim>\<open>retryCount\<close> is
  incremented (so it is not reset to 0), the next poll is scheduled after the backoff
  delay, and the stored baseline and the notification state stay as they are.
\<close>

theorem pollLeadsData_empty_body:
  assumes "isRunning st" and "cookies st = Some cs"
    and "fetch_response e = Response code loc []"
    and "200 \<le> code" and "code < 300"
    and "\<forall>l. loc = Some l \<longrightarrow> \<not> str_includes l ''/login''"
  shows "pollLeadsData h cfg e st =
           (st\<lparr>retryCount := retryCount st + 1\<rparr>,
            [SetTimeout (getBackoffDelay h cfg (random e) (retryCount st + 1))])"
proof -
  have "fetchLeadsData st (fetch_response e) = (Resolved (Some []), st, [])"
    using assms(2-6) by (rule fetchLeadsData_ok)
  with assms(1) show ?thesis
    by (simp add: pollLeadsData_def after_def retryWithBackoff_def Let_def)
qed

text \<open>
  Claim C9 at a concrete input: status 200 with an empty body on a fresh detector.
\<close>

theorem pollLeadsData_empty_body_witness:
  "isRunning fresh_detector
   \<and> cookies fresh_detector = Some [(''session_id'', ''abc'')]
   \<and> fetch_response empty_body_env = Response 200 None []
   \<and> pollLeadsData example_host CONFIG empty_body_env fresh_detector =
       (fresh_detector\<lparr>retryCount := 1\<rparr>, [SetTimeout (Finite 2500)])"
proof -
  have running: "isRunning fresh_detector"
    and jar: "cookies fresh_detector = Some [(''session_id'', ''abc'')]"
    by (simp_all add: fresh_detector_def)
  have response: "fetch_response empty_body_env = Response 200 None []"
    by (simp add: empty_body_env_def example_env_def)
  have ok: "(200::nat) \<le> 200" "(200::nat) < 300"
    "\<forall>l. (None :: string option) = Some l \<longrightarrow> \<not> str_includes l ''/login''"
    by simp_all
  have delay: "getBackoffDelay example_host CONFIG (random empty_body_env)
      (retryCount fresh_detector + 1) = Finite 2500"
    by (simp add: example_backoff empty_body_env_def example_env_def fresh_detector_def)
  from pollLeadsData_empty_body [OF running jar response ok,
      where h = example_host and cfg = CONFIG]
  have "pollLeadsData example_host CONFIG empty_body_env fresh_detector =
      (fresh_detector\<lparr>retryCount := retryCount fresh_detector + 1\<rparr>, [SetTimeout (Finite 2500)])"
    by (simp only: delay)
  then have "pollLeadsData example_host CONFIG empty_body_env fresh_detector =
       (fresh_detector\<lparr>retryCount := 1\<rparr>, [SetTimeout (Finite 2500)])"
    by (simp add: fresh_detector_def)
  with running jar response show ?thesis
    by simp
qed

text \<open>
  Claim C6 as stated fails for the empty snapshot. On a fresh detector (no baseline
  stored) a GET answered with status 200 and an empty body resolves to the snapshot
  \<^verbatim>\<open>''\<close>, which the guard \<^verbatim>\<open>if (!leadsData)\<close> takes for a failed fetch: nothing is
  stored as the baseline, \<^verbatim>\<open>retryCount\<close> becomes 1 and the next poll is scheduled after
  the backoff delay.
\<close>

theorem pollLeadsData_first_poll_empty_counterexample:
  "isRunning fresh_detector
   \<and> previousLeadsData fresh_detector = None
   \<and> fetchLeadsData fresh_detector (fetch_response empty_body_env)
       = (Resolved (Some []), fresh_detector, [])
   \<and> pollLeadsData example_host CONFIG empty_body_env fresh_detector
       = (fresh_detector\<lparr>retryCount := 1\<rparr>, [SetTimeout (Finite 2500)])
   \<and> previousLeadsData (fst (pollLeadsData example_host CONFIG empty_body_env fresh_detector))
       \<noteq> Some []"
proof -
  have fetched: "fetchLeadsData fresh_detector (fetch_response empty_body_env)
       = (Resolved (Some []), fresh_detector, [])"
    by (simp add: fetchLeadsData_def fresh_detector_def empty_body_env_def example_env_def)
  have rnd: "random empty_body_env = 1 / 2"
    by (simp add: empty_body_env_def example_env_def)
  have start: "isRunning fresh_detector" "previousLeadsData fresh_detector = None"
    "retryCount fresh_detector = 0"
    by (simp_all add: fresh_detector_def)
  have poll: "pollLeadsData example_host CONFIG empty_body_env fresh_detector
       = (fresh_detector\<lparr>retryCount := 1\<rparr>, [SetTimeout (Finite 2500)])"
    by (simp add: pollLeadsData_def fetched start rnd after_def retryWithBackoff_def
          example_backoff Let_def)
  from fetched start poll show ?thesis
    by simp
qed

text \<open>
  Claim C6, amended. On the first poll (no baseline stored) with a fetched snapshot
  \<open>S\<close> that is not the empty text, the cycle stores \<open>S\<close> and its parse as the baseline
  and schedules the next poll after the polling interval. It does nothing else: no
  detection result, no POST to the webhook, no change of the notification state.
\<close>

theorem pollLeadsData_first_poll:
  assumes "isRunning st"
    and "fetchLeadsData st (fetch_response e) = (Resolved (Some S), st1, fx)"
    and "S \<noteq> []"
    and "previousLeadsData st = None"
  shows "pollLeadsData h cfg e st =
           (st\<lparr>previousLeadsData := Some S,
               previousLeadsArray := (case JSON_parse h S of Some v \<Rightarrow> v | None \<Rightarrow> JNull)\<rparr>,
            [SetTimeout (Finite (real (pollingInterval (timing cfg))))])"
proof -
  from fetchLeadsData_success [OF assms(2)] have "st1 = st" and "fx = []"
    by simp_all
  with assms show ?thesis
    by (simp add: pollLeadsData_def after_def storeSnapshot_def Let_def)
qed

text \<open>
  Claim C6, amended, at a concrete input: the text \<^verbatim>\<open>lead-a\<close> on a fresh detector.
\<close>

theorem pollLeadsData_first_poll_witness:
  "isRunning fresh_detector
   \<and> fetchLeadsData fresh_detector (fetch_response failed_delivery_env)
       = (Resolved (Some ''lead-a''), fresh_detector, [])
   \<and> ''lead-a'' \<noteq> []
   \<and> previousLeadsData fresh_detector = None
   \<and> pollLeadsData example_host CONFIG failed_delivery_env fresh_detector =
       (fresh_detector\<lparr>previousLeadsData := Some ''lead-a''\<rparr>, [SetTimeout (Finite 1000)])"
proof -
  have running: "isRunning fresh_detector"
    and first: "previousLeadsData fresh_detector = None"
    by (simp_all add: fresh_detector_def)
  have fetched: "fetchLeadsData fresh_detector (fetch_response failed_delivery_env)
       = (Resolved (Some ''lead-a''), fresh_detector, [])"
    by (simp add: fetchLeadsData_def fresh_detector_def failed_delivery_env_def example_env_def)
  have nonempty: "''lead-a'' \<noteq> []"
    by simp
  from pollLeadsData_first_poll [OF running fetched nonempty first,
      where h = example_host and cfg = CONFIG]
  have "pollLeadsData example_host CONFIG failed_delivery_env fresh_detector =
       (fresh_detector\<lparr>previousLeadsData := Some ''lead-a''\<rparr>, [SetTimeout (Finite 1000)])"
    by (simp add: example_parse CONFIG_def fresh_detector_def)
  with running fetched first show ?thesis
    by simp
qed

text \<open>
  Claim C1 as stated fails. The fetch succeeds and the text-mode detection yields a
  batch of one new lead, which is the configured minimum, but its \<^verbatim>\<open>hasChanges\<close> is
  false because the two texts are equal once their times of day are replaced. The cycle
  takes its last branch and leaves the stored baseline as it was.
\<close>

theorem pollLeadsData_retimed_counterexample:
  "isRunning retimed_detector
   \<and> fetchLeadsData retimed_detector (fetch_response retimed_env)
       = (Resolved (Some ''lead-13:34:56''), retimed_detector, [])
   \<and> previousLeadsData retimed_detector = Some ''lead-12:34:56''
   \<and> detectLeadChanges example_host CONFIG (diff_clock retimed_env) ''lead-12:34:56''
         ''lead-13:34:56'' (previousLeadsArray retimed_detector) JNull
       = Inr \<lparr>hasChanges = False,
              newLeads = [JObj [(''id'', JStr ''lead-13''),
                                (''detectedAt'', JStr ''2025-04-25T02:39:56.000Z'')]]\<rparr>
   \<and> minNewLeadsToNotify (changeDetection CONFIG) = 1
   \<and> pollLeadsData example_host CONFIG retimed_env retimed_detector
       = (retimed_detector, [SetTimeout (Finite 1000)])
   \<and> previousLeadsData (fst (pollLeadsData example_host CONFIG retimed_env retimed_detector))
       \<noteq> Some ''lead-13:34:56''"
proof -
  have diff: "detectLeadChanges example_host CONFIG (diff_clock retimed_env) ''lead-12:34:56''
         ''lead-13:34:56'' (previousLeadsArray retimed_detector) JNull
       = Inr \<lparr>hasChanges = False,
              newLeads = [JObj [(''id'', JStr ''lead-13''),
                                (''detectedAt'', JStr ''2025-04-25T02:39:56.000Z'')]]\<rparr>"
    by (simp add: detectLeadChanges_def retimed_text retimed_detector_def polled_detector_fields
          retimed_env_def example_env_def example_clock_def)
  have same: "retimed_detector\<lparr>retryCount := 0\<rparr> = retimed_detector"
    by (simp add: retimed_detector_def polled_detector_def fresh_detector_def)
  have poll: "pollLeadsData example_host CONFIG retimed_env retimed_detector
       = (retimed_detector, [SetTimeout (Finite 1000)])"
    unfolding pollLeadsData_def
    using diff
    by (simp add: retimed_detector_def retimed_env_def example_fetch0 polled_detector_fields
          example_parse after_def scheduleNext_def CONFIG_def same [unfolded retimed_detector_def])
  show ?thesis
    using diff poll
    by (simp add: retimed_detector_def retimed_env_def example_fetch0 polled_detector_fields
          CONFIG_def)
qed

text \<open>
  Claim C1, amended. When the fetch succeeds with a non-empty body, a baseline is
  stored, and the detection reports \<^verbatim>\<open>hasChanges\<close> with a batch of at least
  \<^verbatim>\<open>minNewLeadsToNotify\<close> leads, then the baseline is replaced with the current
  snapshot and \<^verbatim>\<open>retryCount\<close> is reset to 0, if the notification is suppressed as a
  duplicate or the POST is answered, whatever its status.
\<close>

theorem pollLeadsData_baseline_advances:
  assumes running: "isRunning st"
    and fetched: "fetchLeadsData st (fetch_response e) = (Resolved (Some leadsData), st1, fx)"
    and nonempty: "leadsData \<noteq> []"
    and baseline: "previousLeadsData st = Some previousData"
    and parsed: "currentLeadsArray = (case JSON_parse h leadsData of Some v \<Rightarrow> v | None \<Rightarrow> JNull)"
    and diff: "detectLeadChanges h cfg (diff_clock e) previousData leadsData
                 (previousLeadsArray st) currentLeadsArray = Inr ch"
    and batch: "hasChanges ch"
               "minNewLeadsToNotify (changeDetection cfg) \<le> length (newLeads ch)"
    and settled: "webhook_response e = RequestError \<longrightarrow>
                    \<not> fst (shouldSendNotification cfg (date_now e)
                             (map leadIdentity (newLeads ch)) st)"
  shows "previousLeadsData (fst (pollLeadsData h cfg e st)) = Some leadsData
         \<and> previousLeadsArray (fst (pollLeadsData h cfg e st)) = currentLeadsArray
         \<and> retryCount (fst (pollLeadsData h cfg e st)) = 0"
proof -
  from fetchLeadsData_success [OF fetched] have same: "st1 = st" "fx = []"
    by simp_all
  obtain send st2 where dedup:
    "shouldSendNotification cfg (date_now e) (map leadIdentity (newLeads ch)) st = (send, st2)"
    by (cases "shouldSendNotification cfg (date_now e) (map leadIdentity (newLeads ch)) st")
  show ?thesis
  proof (cases send)
    case False
    with running fetched nonempty baseline parsed diff batch dedup same show ?thesis
      by (simp add: pollLeadsData_def after_def scheduleNext_def storeSnapshot_def Let_def)
  next
    case True
    with settled dedup obtain code loc content
      where "webhook_response e = Response code loc content"
      by (cases "webhook_response e") auto
    with True running fetched nonempty baseline parsed diff batch dedup same show ?thesis
      by (simp add: pollLeadsData_def after_def scheduleNext_def storeSnapshot_def Let_def
            sendWebhookNotification_def)
  qed
qed

text \<open>
  Claim C1, amended, at a concrete input: the POST is answered with status 500, the
  baseline advances and \<^verbatim>\<open>retryCount\<close> goes from 3 to 0.
\<close>

theorem pollLeadsData_baseline_advances_witness:
  "isRunning retried_detector
   \<and> fetchLeadsData retried_detector (fetch_response failed_delivery_env)
       = (Resolved (Some ''lead-a''), retried_detector, [])
   \<and> previousLeadsData retried_detector = Some ''x''
   \<and> retryCount retried_detector = 3
   \<and> detectLeadChanges example_host CONFIG (diff_clock failed_delivery_env) ''x'' ''lead-a''
         (previousLeadsArray retried_detector) JNull
       = Inr \<lparr>hasChanges = True,
              newLeads = [JObj [(''id'', JStr ''lead-a''),
                                (''detectedAt'', JStr ''2025-04-25T02:39:56.000Z'')]]\<rparr>
   \<and> webhook_response failed_delivery_env = Response 500 None []
   \<and> previousLeadsData
         (fst (pollLeadsData example_host CONFIG failed_delivery_env retried_detector))
       = Some ''lead-a''
   \<and> previousLeadsArray
         (fst (pollLeadsData example_host CONFIG failed_delivery_env retried_detector))
       = JNull
   \<and> retryCount (fst (pollLeadsData example_host CONFIG failed_delivery_env retried_detector))
       = 0"
proof -
  let ?ch = "\<lparr>hasChanges = True,
              newLeads = [JObj [(''id'', JStr ''lead-a''),
                                (''detectedAt'', JStr ''2025-04-25T02:39:56.000Z'')]]\<rparr>"
  have running: "isRunning retried_detector"
    and baseline: "previousLeadsData retried_detector = Some ''x''"
    and count: "retryCount retried_detector = 3"
    and arr: "previousLeadsArray retried_detector = JNull"
    by (simp_all add: retried_detector_def polled_detector_def fresh_detector_def)
  have fetched: "fetchLeadsData retried_detector (fetch_response failed_delivery_env)
       = (Resolved (Some ''lead-a''), retried_detector, [])"
    by (simp add: retried_detector_def failed_delivery_env_def example_fetch)
  have nonempty: "''lead-a'' \<noteq> []"
    by simp
  have parsed: "JNull = (case JSON_parse example_host ''lead-a'' of Some v \<Rightarrow> v | None \<Rightarrow> JNull)"
    by (simp add: example_parse)
  have diff: "detectLeadChanges example_host CONFIG (diff_clock failed_delivery_env) ''x''
         ''lead-a'' (previousLeadsArray retried_detector) JNull = Inr ?ch"
    by (simp add: detectLeadChanges_def arr new_lead_text failed_delivery_env_def
          example_env_def example_clock_def)
  have batch: "hasChanges ?ch" "minNewLeadsToNotify (changeDetection CONFIG) \<le> length (newLeads ?ch)"
    by (simp_all add: CONFIG_def)
  have response: "webhook_response failed_delivery_env = Response 500 None []"
    by (simp add: failed_delivery_env_def example_env_def)
  then have settled: "webhook_response failed_delivery_env = RequestError \<longrightarrow>
      \<not> fst (shouldSendNotification CONFIG (date_now failed_delivery_env)
               (map leadIdentity (newLeads ?ch)) retried_detector)"
    by simp
  note C1 = pollLeadsData_baseline_advances
    [OF running fetched nonempty baseline parsed diff batch settled]
  with running fetched baseline count diff response show ?thesis
    by simp
qed

text \<open>
  What the cycle does when the POST fails with a transport error: the rejected promise
  of \<^verbatim>\<open>sendWebhookNotification\<close> raises at the \<^verbatim>\<open>await\<close>, the \<^verbatim>\<open>catch\<close> block of
  \<^verbatim>\<open>pollLeadsData\<close> runs, the baseline stays and \<^verbatim>\<open>retryCount\<close> is incremented.
\<close>

lemma pollLeadsData_delivery_rejected:
  assumes running: "isRunning st"
    and fetched: "fetchLeadsData st (fetch_response e) = (Resolved (Some leadsData), st1, fx)"
    and nonempty: "leadsData \<noteq> []"
    and baseline: "previousLeadsData st = Some previousData"
    and diff: "detectLeadChanges h cfg (diff_clock e) previousData leadsData
                 (previousLeadsArray st)
                 (case JSON_parse h leadsData of Some v \<Rightarrow> v | None \<Rightarrow> JNull) = Inr ch"
    and batch: "hasChanges ch"
               "minNewLeadsToNotify (changeDetection cfg) \<le> length (newLeads ch)"
    and send: "fst (shouldSendNotification cfg (date_now e)
                             (map leadIdentity (newLeads ch)) st)"
    and failed: "webhook_response e = RequestError"
  shows "previousLeadsData (fst (pollLeadsData h cfg e st)) = Some previousData
         \<and> previousLeadsArray (fst (pollLeadsData h cfg e st)) = previousLeadsArray st
         \<and> retryCount (fst (pollLeadsData h cfg e st)) = retryCount st + 1"
proof -
  from fetchLeadsData_success [OF fetched] have same: "st1 = st" "fx = []"
    by simp_all
  obtain st2 where dedup:
    "shouldSendNotification cfg (date_now e) (map leadIdentity (newLeads ch)) st = (True, st2)"
    using send
    by (cases "shouldSendNotification cfg (date_now e) (map leadIdentity (newLeads ch)) st") auto
  then have keep: "previousLeadsData st2 = previousLeadsData st"
    "previousLeadsArray st2 = previousLeadsArray st" "retryCount st2 = retryCount st"
    by (auto simp: shouldSendNotification_def split: if_splits)
  from running fetched nonempty baseline diff batch dedup same failed keep show ?thesis
    by (simp add: pollLeadsData_def after_def retryWithBackoff_def Let_def
          sendWebhookNotification_def)
qed

end
